theory Spec2Isabelle
  imports Complex_Main "HOL-Library.Sublist"
begin

section \<open>Numbers\<close>

text \<open>
  The program computes with JavaScript numbers. They are modelled as exact rationals:
  rounding of IEEE doubles, NaN and the infinities are not part of the model. On
  integer-valued milliseconds (the documented domain of budgets and of the animation
  frame interval) double arithmetic is exact, so the model and the program agree there;
  the constant \<open>0.01\<close> is the rational \<open>1/100\<close>.
\<close>

text \<open>The \<open>%\<close> operator of JavaScript: the remainder of the division truncated towards
  zero, so the result has the sign of the dividend.\<close>

definition js_trunc :: "rat \<Rightarrow> int" where
  "js_trunc x = (if 0 \<le> x then \<lfloor>x\<rfloor> else \<lceil>x\<rceil>)"

definition js_rem :: "rat \<Rightarrow> rat \<Rightarrow> rat" where
  "js_rem a b = a - b * of_int (js_trunc (a / b))"

section \<open>The protocol session and the callbacks\<close>

datatype screenshotFormat = Jpeg | Png

text \<open>\<open>interface ScreenshotOptions { format; quality? }\<close>\<close>

record screenshotOptions =
  format :: screenshotFormat
  quality :: "rat option"

text \<open>
  Everything the controller does to the outside world, in the order it does it: the
  requests it sends over \<open>this.browser\<close> and the callbacks it invokes. Callbacks are
  named by values of a type \<open>'cb\<close>; what a callback does is the business of its caller.
\<close>

datatype 'cb event =
    SetVirtualTimePolicyPause rat
      \<comment> \<open>\<open>Emulation.setVirtualTimePolicy({initialVirtualTime, policy: 'pause'})\<close>\<close>
  | SetVirtualTimePolicy rat rat bool
      \<comment> \<open>policy \<open>pauseIfNetworkFetchesPending\<close>: budget, maxVirtualTimeTaskStarvationCount,
          waitForNavigation\<close>
  | BeginFrame rat "bool option" "screenshotOptions option"
      \<comment> \<open>\<open>HeadlessExperimental.beginFrame\<close>: frameTimeTicks, noDisplayUpdates, screenshot\<close>
  | OnInstalled 'cb rat
  | OnExpired 'cb rat
  | PageNavigate string
  | PageLoadEventFired
  | TargetClose

section \<open>class VirtualTimeController\<close>

record 'cb controller =
  browser :: "'cb event list"
  animationFrameInterval :: rat
  maxTaskStarvationCount :: rat
  virtualTimeBase :: rat
  remainingBudget :: rat
  lastGrantedChunk :: rat
  totalElapsedTime :: rat
  onInstalled :: "'cb option"
  onExpired :: "'cb option"

text \<open>\<open>x || d\<close> on an optional number: the default replaces \<open>undefined\<close> and \<open>0\<close>.\<close>

definition orDefault :: "rat option \<Rightarrow> rat \<Rightarrow> rat" where
  "orDefault x d = (case x of None \<Rightarrow> d | Some v \<Rightarrow> if v = 0 then d else v)"

definition newVirtualTimeController :: "rat option \<Rightarrow> rat option \<Rightarrow> 'cb controller" where
  "newVirtualTimeController animationFrameInterval' maxTaskStarvationCount' =
     \<lparr> browser = [],
       animationFrameInterval = orDefault animationFrameInterval' 16,
       maxTaskStarvationCount = orDefault maxTaskStarvationCount' (100 * 1000),
       virtualTimeBase = 0,
       remainingBudget = 0,
       lastGrantedChunk = 0,
       totalElapsedTime = 0,
       onInstalled = None,
       onExpired = None \<rparr>"

definition send :: "'cb event \<Rightarrow> 'cb controller \<Rightarrow> 'cb controller" where
  "send e s = s\<lparr>browser := browser s @ [e]\<rparr>"

definition scheduleNextChunk :: "'cb controller \<Rightarrow> 'cb controller" where
  "scheduleNextChunk s =
     (let lastFrame = js_rem (totalElapsedTime s) (animationFrameInterval s);
          nextAnimationFrame = animationFrameInterval s - lastFrame;
          chunk = min nextAnimationFrame (remainingBudget s);
          s1 = send (SetVirtualTimePolicy chunk (maxTaskStarvationCount s)
                       (totalElapsedTime s = 0)) s;
          s2 = s1\<lparr>lastGrantedChunk := chunk\<rparr>
      in case onInstalled s2 of
           Some cb \<Rightarrow> (send (OnInstalled cb (virtualTimeBase s2)) s2)\<lparr>onInstalled := None\<rparr>
         | None \<Rightarrow> s2)"

definition issueAnimationFrameAndScheduleNextChunk :: "'cb controller \<Rightarrow> 'cb controller" where
  "issueAnimationFrameAndScheduleNextChunk s =
     scheduleNextChunk
       (if totalElapsedTime s > 0 \<and> remainingBudget s > 0
        then (let remainder = js_rem (totalElapsedTime s) (animationFrameInterval s)
              in if remainder = 0
                 then send (BeginFrame (virtualTimeBase s + totalElapsedTime s) (Some True) None) s
                 else s)
        else s)"

text \<open>The handler the constructor registers for \<open>Emulation.virtualTimeBudgetExpired\<close>.\<close>

definition virtualTimeBudgetExpired :: "'cb controller \<Rightarrow> 'cb controller" where
  "virtualTimeBudgetExpired s =
     (let s1 = s\<lparr>totalElapsedTime := totalElapsedTime s + lastGrantedChunk s\<rparr>;
          s2 = s1\<lparr>remainingBudget := remainingBudget s1 - lastGrantedChunk s1\<rparr>
      in if remainingBudget s2 = 0
         then (case onExpired s2 of
                 Some cb \<Rightarrow> send (OnExpired cb (totalElapsedTime s2)) s2
               | None \<Rightarrow> s2)
         else issueAnimationFrameAndScheduleNextChunk s2)"

definition grantTime :: "rat \<Rightarrow> 'cb \<Rightarrow> 'cb controller \<Rightarrow> 'cb controller" where
  "grantTime budget onExpired' s =
     issueAnimationFrameAndScheduleNextChunk
       (s\<lparr>remainingBudget := budget, onExpired := Some onExpired'\<rparr>)"

text \<open>\<open>virtualTimeTicksBase\<close> is the browser's reply to the pause request.\<close>

definition grantInitialTime ::
  "rat \<Rightarrow> rat \<Rightarrow> 'cb \<Rightarrow> 'cb \<Rightarrow> rat \<Rightarrow> 'cb controller \<Rightarrow> 'cb controller" where
  "grantInitialTime budget initialVirtualTime onInstalled' onExpired' virtualTimeTicksBase s =
     (let s1 = (send (SetVirtualTimePolicyPause initialVirtualTime) s)
                 \<lparr>virtualTimeBase := virtualTimeTicksBase\<rparr>;
          s2 = send (BeginFrame (virtualTimeBase s1) (Some False) None) s1;
          s3 = s2\<lparr>onInstalled := Some onInstalled'\<rparr>
      in grantTime budget onExpired' s3)"

definition currentFrameTime :: "'cb controller \<Rightarrow> rat" where
  "currentFrameTime s = virtualTimeBase s + totalElapsedTime s"


definition stopVirtualTimeGracefully :: "'cb controller \<Rightarrow> 'cb controller" where
  "stopVirtualTimeGracefully s =
     (if remainingBudget s \<noteq> 0 then s\<lparr>remainingBudget := 0\<rparr> else s)"

text \<open>\<open>screenshotData\<close> is the browser's reply to the frame request; the result is the
  returned buffer and the controller afterwards.\<close>

definition captureScreenshot ::
  "screenshotOptions \<Rightarrow> 'd \<Rightarrow> 'cb controller \<Rightarrow> 'd \<times> 'cb controller" where
  "captureScreenshot options screenshotData s =
     (let frameTimeTicks = currentFrameTime s;
          s1 = send (BeginFrame frameTimeTicks None (Some options)) s
      in (screenshotData, s1\<lparr>virtualTimeBase := virtualTimeBase s1 + 1 / 100\<rparr>))"

section \<open>Sessions of the controller\<close>

text \<open>The distance from the elapsed time to the next animation frame, as
  \<open>scheduleNextChunk_\<close> computes it, and the statement that the chunk last submitted is
  the one \<open>scheduleNextChunk_\<close> cuts from the current elapsed time and budget.\<close>

definition nextAnimationFrame :: "'cb controller \<Rightarrow> rat" where
  "nextAnimationFrame s =
     animationFrameInterval s - js_rem (totalElapsedTime s) (animationFrameInterval s)"

definition chunkInFlight :: "'cb controller \<Rightarrow> bool" where
  "chunkInFlight s \<longleftrightarrow> lastGrantedChunk s = min (nextAnimationFrame s) (remainingBudget s)"

text \<open>The budgets of the time-budget requests in a trace, oldest first.\<close>

fun budgets :: "'cb event list \<Rightarrow> rat list" where
  "budgets [] = []"
| "budgets (SetVirtualTimePolicy b m w # es) = b # budgets es"
| "budgets (e # es) = budgets es"

text \<open>The callbacks invoked in a trace.\<close>

fun installedCalls :: "'cb event list \<Rightarrow> ('cb \<times> rat) list" where
  "installedCalls [] = []"
| "installedCalls (OnInstalled cb t # es) = (cb, t) # installedCalls es"
| "installedCalls (e # es) = installedCalls es"

fun expiredCalls :: "'cb event list \<Rightarrow> ('cb \<times> rat) list" where
  "expiredCalls [] = []"
| "expiredCalls (OnExpired cb t # es) = (cb, t) # expiredCalls es"
| "expiredCalls (e # es) = expiredCalls es"

text \<open>The frame times of the render requests that carry a screenshot request.\<close>

fun screenshotTimes :: "'cb event list \<Rightarrow> rat list" where
  "screenshotTimes [] = []"
| "screenshotTimes (BeginFrame t n (Some opts) # es) = t # screenshotTimes es"
| "screenshotTimes (e # es) = screenshotTimes es"

text \<open>\<open>n\<close> budget-expiry events in a row, with no call of the caller in between.\<close>

definition expiries :: "nat \<Rightarrow> 'cb controller \<Rightarrow> 'cb controller" where
  "expiries n s = (virtualTimeBudgetExpired ^^ n) s"

text \<open>What happens to a controller: the calls of its public methods and the
  budget-expiry events of the browser.\<close>

datatype 'cb op =
    GrantInitialTime rat rat 'cb 'cb rat
  | GrantTime rat 'cb
  | BudgetExpired
  | CaptureScreenshot screenshotOptions
  | StopVirtualTimeGracefully

fun apply_op :: "'cb op \<Rightarrow> 'cb controller \<Rightarrow> 'cb controller" where
  "apply_op (GrantInitialTime b ivt oi oe base) s = grantInitialTime b ivt oi oe base s"
| "apply_op (GrantTime b oe) s = grantTime b oe s"
| "apply_op BudgetExpired s = virtualTimeBudgetExpired s"
| "apply_op (CaptureScreenshot opts) s = snd (captureScreenshot opts () s)"
| "apply_op StopVirtualTimeGracefully s = stopVirtualTimeGracefully s"

fun session :: "'cb op list \<Rightarrow> 'cb controller \<Rightarrow> 'cb controller" where
  "session [] s = s"
| "session (x # xs) s = session xs (apply_op x s)"





text \<open>The installation callbacks a sequence of operations registers, with the time base
  the browser replies.\<close>

fun installs :: "'cb op list \<Rightarrow> ('cb \<times> rat) list" where
  "installs [] = []"
| "installs (GrantInitialTime b ivt oi oe base # xs) = (oi, base) # installs xs"
| "installs (x # xs) = installs xs"

section \<open>The capture loop of \<open>run\<close>\<close>

text \<open>
  The part of \<open>run\<close> from the construction of the controller on. Launching the browser
  and opening the protocol sessions happen before and touch nothing modelled here.
  Left out are the console lines that print wall-clock durations or dump the list of file
  names, the closing of the browser-level session and the killing of the browser process
  after the target has been closed, and the codec options handed to the encoder; the other
  effects are kept in the order in which they happen. The callbacks are named by the
  values of a datatype and their bodies are run by \<open>invoke\<close>.
\<close>

record argv =
  width :: rat
  height :: rat
  frameInterval :: rat
  url :: string
  frameCount :: rat
  outputFilename :: string
  screenshotFormat :: screenshotFormat
  screenshotJpegQuality :: rat
  noVideo :: bool
  keepFrames :: bool

definition timeBetweenFramesInMilliseconds :: "argv \<Rightarrow> rat" where
  "timeBetweenFramesInMilliseconds a = frameInterval a"

definition totalFramesToCapture :: "argv \<Rightarrow> rat" where
  "totalFramesToCapture a = frameCount a"

definition screenshotOptionsOf :: "argv \<Rightarrow> screenshotOptions" where
  "screenshotOptionsOf a =
     (if screenshotFormat a = Jpeg
      then \<lparr>format = screenshotFormat a, quality = Some (screenshotJpegQuality a)\<rparr>
      else \<lparr>format = Png, quality = None\<rparr>)"

text \<open>\<open>Number.prototype.toString\<close> on a non-negative integer, and \<open>padStart\<close>.\<close>

fun toString :: "nat \<Rightarrow> string" where
  "toString n =
     (if n < 10 then [''0123456789'' ! n]
      else toString (n div 10) @ [''0123456789'' ! (n mod 10)])"

declare toString.simps [simp del]

definition padStart :: "nat \<Rightarrow> char \<Rightarrow> string \<Rightarrow> string" where
  "padStart n c s = replicate (n - length s) c @ s"

definition extension :: "screenshotOptions \<Rightarrow> string" where
  "extension opts = (if format opts = Jpeg then ''jpg'' else ''png'')"

definition frameFilenameOf :: "screenshotOptions \<Rightarrow> nat \<Rightarrow> string" where
  "frameFilenameOf opts frameCounter' =
     ''frame-'' @ padStart 7 (CHR ''0'') (toString frameCounter') @ ''.'' @ extension opts"

text \<open>The three callbacks \<open>run\<close> hands to the controller.\<close>

datatype callback = OnInstalledCallback | OnExpiredCallback | TimeExpired

datatype fs_op = WriteFileSync string string | UnlinkSync string

record ffmpegJob =
  input :: string
  fps :: rat
  save :: string

datatype ffmpegEvent = FfmpegEnd | FfmpegError string

text \<open>What the outside world answers: the time base of the pause request, the data of
  each screenshot, and how the encoder ends.\<close>

record env =
  virtualTimeTicksBase :: rat
  screenshotData :: "nat \<Rightarrow> string"
  ffmpegResult :: ffmpegEvent

record world =
  controller :: "callback controller"
  expiriesDelivered :: nat
  frameCounter :: nat
  allFrameFilenames :: "string list"
  fileSystem :: "fs_op list"
  console :: "string list"
  ffmpeg :: "ffmpegJob option"

definition unlinkAll :: "world \<Rightarrow> world" where
  "unlinkAll w = w\<lparr>fileSystem := fileSystem w @ map UnlinkSync (allFrameFilenames w)\<rparr>"

definition startFfmpeg :: "argv \<Rightarrow> world \<Rightarrow> world" where
  "startFfmpeg a w =
     w\<lparr>ffmpeg := Some \<lparr>input = ''frame-%07d.'' @ extension (screenshotOptionsOf a),
                        fps = 1000 / timeBetweenFramesInMilliseconds a,
                        save = outputFilename a\<rparr>\<rparr>"

text \<open>The handlers of the encoder's \<open>error\<close> and \<open>end\<close> events.\<close>

fun ffmpegOn :: "argv \<Rightarrow> ffmpegEvent \<Rightarrow> world \<Rightarrow> world" where
  "ffmpegOn a (FfmpegError message) w =
     w\<lparr>console := console w @ [''An error occurred: '' @ message]\<rparr>"
| "ffmpegOn a FfmpegEnd w = (if \<not> keepFrames a then unlinkAll w else w)"

definition finish :: "argv \<Rightarrow> world \<Rightarrow> world" where
  "finish a w =
     (let w1 = w\<lparr>console := console w @ [''Finished capturing frames.'']\<rparr>;
          w2 = w1\<lparr>controller := send TargetClose (controller w1)\<rparr>;
          w3 = (if \<not> noVideo a then startFfmpeg a w2
                else if \<not> keepFrames a then unlinkAll w2 else w2)
      in w3\<lparr>console := console w3 @ [''Finished'']\<rparr>)"

definition timeExpired :: "env \<Rightarrow> argv \<Rightarrow> world \<Rightarrow> world" where
  "timeExpired e a w =
     (let (screen, c1) = captureScreenshot (screenshotOptionsOf a)
                           (screenshotData e (frameCounter w)) (controller w);
          frameFilename = frameFilenameOf (screenshotOptionsOf a) (frameCounter w);
          w1 = w\<lparr>controller := c1,
                 fileSystem := fileSystem w @ [WriteFileSync frameFilename screen],
                 allFrameFilenames := allFrameFilenames w @ [frameFilename]\<rparr>;
          continue = (of_nat (frameCounter w1) < totalFramesToCapture a);
          w2 = w1\<lparr>frameCounter := frameCounter w1 + 1\<rparr>
      in if continue
         then w2\<lparr>controller :=
                   grantTime (timeBetweenFramesInMilliseconds a) TimeExpired (controller w2)\<rparr>
         else finish a w2)"

fun invoke :: "env \<Rightarrow> argv \<Rightarrow> callback \<times> rat \<Rightarrow> world \<Rightarrow> world" where
  "invoke e a (OnInstalledCallback, t) w =
     w\<lparr>controller := send PageLoadEventFired (send (PageNavigate (url a)) (controller w))\<rparr>"
| "invoke e a (OnExpiredCallback, t) w =
     (let w1 = w\<lparr>frameCounter := 1, allFrameFilenames := []\<rparr>
      in w1\<lparr>controller :=
               grantTime (timeBetweenFramesInMilliseconds a) TimeExpired (controller w1)\<rparr>)"
| "invoke e a (TimeExpired, t) w = timeExpired e a w"

text \<open>The callbacks invoked in a trace, of either kind, in order.\<close>

fun callbackCalls :: "'cb event list \<Rightarrow> ('cb \<times> rat) list" where
  "callbackCalls [] = []"
| "callbackCalls (OnInstalled cb t # es) = (cb, t) # callbackCalls es"
| "callbackCalls (OnExpired cb t # es) = (cb, t) # callbackCalls es"
| "callbackCalls (e # es) = callbackCalls es"

text \<open>A call into the controller from outside the callbacks, followed by the bodies of
  the callbacks the controller invoked during the call. (The callbacks of \<open>run\<close> use the
  controller only through \<open>captureScreenshot\<close> and \<open>grantTime\<close>.)\<close>

definition controllerEvent ::
  "(callback controller \<Rightarrow> callback controller) \<Rightarrow> env \<Rightarrow> argv \<Rightarrow> world \<Rightarrow> world" where
  "controllerEvent f e a w =
     (let c = controller w; c' = f c
      in fold (invoke e a)
           (drop (length (callbackCalls (browser c))) (callbackCalls (browser c')))
           (w\<lparr>controller := c'\<rparr>))"

text \<open>The browser owes one expiry event for each time-budget request.\<close>

definition pendingExpiries :: "world \<Rightarrow> nat" where
  "pendingExpiries w = length (budgets (browser (controller w))) - expiriesDelivered w"

fun eventLoop :: "nat \<Rightarrow> env \<Rightarrow> argv \<Rightarrow> world \<Rightarrow> world" where
  "eventLoop 0 e a w = w"
| "eventLoop (Suc fuel) e a w =
     (if pendingExpiries w = 0 then w
      else eventLoop fuel e a
             (controllerEvent virtualTimeBudgetExpired e a
                (w\<lparr>expiriesDelivered := expiriesDelivered w + 1\<rparr>)))"

definition run :: "nat \<Rightarrow> env \<Rightarrow> argv \<Rightarrow> world" where
  "run fuel e a =
     (let w0 = \<lparr>controller = newVirtualTimeController None None,
                 expiriesDelivered = 0, frameCounter = 0, allFrameFilenames = [],
                 fileSystem = [], console = [], ffmpeg = None\<rparr>;
          w1 = controllerEvent
                 (grantInitialTime 1 10000 OnInstalledCallback OnExpiredCallback
                    (virtualTimeTicksBase e)) e a w0;
          w2 = eventLoop fuel e a w1
      in case ffmpeg w2 of
           Some job \<Rightarrow> ffmpegOn a (ffmpegResult e) w2
         | None \<Rightarrow> w2)"

section \<open>The invariant of orderly sessions\<close>



section \<open>Reading a frame name back\<close>

text \<open>The number a string of decimal digits denotes, for stating what the names of the
  frame files say.\<close>

definition digitValue :: "char \<Rightarrow> nat" where
  "digitValue c = of_char c - 48"

definition isDigit :: "char \<Rightarrow> bool" where
  "isDigit c \<longleftrightarrow> c \<in> set ''0123456789''"

definition fromDecimal :: "string \<Rightarrow> nat" where
  "fromDecimal s = foldl (\<lambda>n c. 10 * n + digitValue c) 0 s"

text \<open>The names of the files written, in order.\<close>

fun written :: "fs_op list \<Rightarrow> string list" where
  "written [] = []"
| "written (WriteFileSync name d # xs) = name # written xs"
| "written (x # xs) = written xs"

fun unlinked :: "fs_op list \<Rightarrow> string list" where
  "unlinked [] = []"
| "unlinked (UnlinkSync name # xs) = name # unlinked xs"
| "unlinked (x # xs) = unlinked xs"

section \<open>The states of the capture loop\<close>

definition frameNames :: "argv \<Rightarrow> nat \<Rightarrow> string list" where
  "frameNames a k = map (frameFilenameOf (screenshotOptionsOf a)) [1..<Suc k]"

definition framesWritten :: "env \<Rightarrow> argv \<Rightarrow> nat \<Rightarrow> fs_op list" where
  "framesWritten e a k =
     map (\<lambda>i. WriteFileSync (frameFilenameOf (screenshotOptionsOf a) i) (screenshotData e i))
       [1..<Suc k]"

text \<open>\<open>k\<close> frames are captured and the grant before the next one is in flight.\<close>

definition capturing :: "env \<Rightarrow> argv \<Rightarrow> nat \<Rightarrow> world \<Rightarrow> bool" where
  "capturing e a k w \<longleftrightarrow>
     0 < animationFrameInterval (controller w) \<and> chunkInFlight (controller w) \<and>
     onInstalled (controller w) = None \<and> onExpired (controller w) = Some TimeExpired \<and>
     length (budgets (browser (controller w))) = Suc (expiriesDelivered w) \<and>
     frameCounter w = Suc k \<and> allFrameFilenames w = frameNames a k \<and>
     fileSystem w = framesWritten e a k \<and>
     length (screenshotTimes (browser (controller w))) = k \<and>
     ffmpeg w = None \<and> console w = []"

text \<open>\<open>k\<close> frames are captured and the loop has finished.\<close>

definition captured :: "env \<Rightarrow> argv \<Rightarrow> nat \<Rightarrow> world \<Rightarrow> bool" where
  "captured e a k w \<longleftrightarrow>
     length (budgets (browser (controller w))) = expiriesDelivered w \<and>
     frameCounter w = Suc k \<and> allFrameFilenames w = frameNames a k \<and>
     fileSystem w =
       framesWritten e a k @
       (if noVideo a \<and> \<not> keepFrames a then map UnlinkSync (frameNames a k) else []) \<and>
     length (screenshotTimes (browser (controller w))) = k \<and>
     (ffmpeg w = None) = noVideo a \<and>
     console w = [''Finished capturing frames.'', ''Finished'']"

text \<open>A browser that returns empty screenshots, for the examples.\<close>

definition blankScreen :: "nat \<Rightarrow> string" where
  "blankScreen n = []"

section \<open>Arithmetic of the remainder\<close>

lemma js_rem_lt:
  assumes "0 < A" shows "js_rem e A < A"
proof (cases "0 \<le> e / A")
  case True
  have "e / A < of_int \<lfloor>e / A\<rfloor> + 1" by linarith
  then have "A * (e / A) < A * (of_int \<lfloor>e / A\<rfloor> + 1)"
    using assms by (rule mult_strict_left_mono)
  then have "e < A * (of_int \<lfloor>e / A\<rfloor> + 1)"
    using assms by simp
  then show ?thesis using True by (simp add: js_rem_def js_trunc_def algebra_simps)
next
  case False
  have "e / A \<le> of_int \<lceil>e / A\<rceil>" by linarith
  then have "A * (e / A) \<le> A * of_int \<lceil>e / A\<rceil>"
    using assms by (intro mult_left_mono) simp_all
  then have "e \<le> A * of_int \<lceil>e / A\<rceil>"
    using assms by simp
  then show ?thesis using False assms by (simp add: js_rem_def js_trunc_def)
qed

lemma js_rem_nonneg:
  assumes "0 < A" "0 \<le> e" shows "0 \<le> js_rem e A"
proof -
  have "of_int \<lfloor>e / A\<rfloor> \<le> e / A" by linarith
  then have "A * of_int \<lfloor>e / A\<rfloor> \<le> A * (e / A)"
    using assms by (intro mult_left_mono) simp_all
  then have "A * of_int \<lfloor>e / A\<rfloor> \<le> e"
    using assms by simp
  then show ?thesis using assms by (simp add: js_rem_def js_trunc_def)
qed

lemma js_rem_multiple: "A \<noteq> 0 \<Longrightarrow> js_rem (A * of_int k) A = 0"
  by (simp add: js_rem_def js_trunc_def)


lemma js_rem_next_aligned:
  assumes "A \<noteq> 0" shows "js_rem (e + (A - js_rem e A)) A = 0"
proof -
  have "e + (A - js_rem e A) = A * of_int (js_trunc (e / A) + 1)"
    by (simp add: js_rem_def algebra_simps)
  then show ?thesis using js_rem_multiple [OF assms, of "js_trunc (e / A) + 1"] by simp
qed

section \<open>The handler, step by step\<close>

lemma scheduleNextChunk_fields [simp]:
  "totalElapsedTime (scheduleNextChunk s) = totalElapsedTime s"
  "remainingBudget (scheduleNextChunk s) = remainingBudget s"
  "animationFrameInterval (scheduleNextChunk s) = animationFrameInterval s"
  "maxTaskStarvationCount (scheduleNextChunk s) = maxTaskStarvationCount s"
  "virtualTimeBase (scheduleNextChunk s) = virtualTimeBase s"
  "onExpired (scheduleNextChunk s) = onExpired s"
  "onInstalled (scheduleNextChunk s) = None"
  "lastGrantedChunk (scheduleNextChunk s) = min (nextAnimationFrame s) (remainingBudget s)"
  by (simp_all add: scheduleNextChunk_def send_def Let_def nextAnimationFrame_def
      split: option.split)

lemma issue_fields [simp]:
  "totalElapsedTime (issueAnimationFrameAndScheduleNextChunk s) = totalElapsedTime s"
  "remainingBudget (issueAnimationFrameAndScheduleNextChunk s) = remainingBudget s"
  "animationFrameInterval (issueAnimationFrameAndScheduleNextChunk s) = animationFrameInterval s"
  "maxTaskStarvationCount (issueAnimationFrameAndScheduleNextChunk s) = maxTaskStarvationCount s"
  "virtualTimeBase (issueAnimationFrameAndScheduleNextChunk s) = virtualTimeBase s"
  "onExpired (issueAnimationFrameAndScheduleNextChunk s) = onExpired s"
  "onInstalled (issueAnimationFrameAndScheduleNextChunk s) = None"
  "lastGrantedChunk (issueAnimationFrameAndScheduleNextChunk s) =
     min (nextAnimationFrame s) (remainingBudget s)"
  by (simp_all add: issueAnimationFrameAndScheduleNextChunk_def send_def Let_def
      nextAnimationFrame_def)

lemma chunkInFlight_issue [simp]: "chunkInFlight (issueAnimationFrameAndScheduleNextChunk s)"
  by (simp add: chunkInFlight_def nextAnimationFrame_def)

lemma expired_fields [simp]:
  "totalElapsedTime (virtualTimeBudgetExpired s) = totalElapsedTime s + lastGrantedChunk s"
  "remainingBudget (virtualTimeBudgetExpired s) = remainingBudget s - lastGrantedChunk s"
  "animationFrameInterval (virtualTimeBudgetExpired s) = animationFrameInterval s"
  "maxTaskStarvationCount (virtualTimeBudgetExpired s) = maxTaskStarvationCount s"
  "virtualTimeBase (virtualTimeBudgetExpired s) = virtualTimeBase s"
  "onExpired (virtualTimeBudgetExpired s) = onExpired s"
  by (simp_all add: virtualTimeBudgetExpired_def send_def Let_def split: option.split)

lemma grantTime_fields [simp]:
  "totalElapsedTime (grantTime B cb s) = totalElapsedTime s"
  "remainingBudget (grantTime B cb s) = B"
  "animationFrameInterval (grantTime B cb s) = animationFrameInterval s"
  "maxTaskStarvationCount (grantTime B cb s) = maxTaskStarvationCount s"
  "virtualTimeBase (grantTime B cb s) = virtualTimeBase s"
  "onExpired (grantTime B cb s) = Some cb"
  "onInstalled (grantTime B cb s) = None"
  "chunkInFlight (grantTime B cb s)"
  by (simp_all add: grantTime_def)

lemma grantInitialTime_fields [simp]:
  "totalElapsedTime (grantInitialTime B ivt oi cb base s) = totalElapsedTime s"
  "remainingBudget (grantInitialTime B ivt oi cb base s) = B"
  "animationFrameInterval (grantInitialTime B ivt oi cb base s) = animationFrameInterval s"
  "maxTaskStarvationCount (grantInitialTime B ivt oi cb base s) = maxTaskStarvationCount s"
  "virtualTimeBase (grantInitialTime B ivt oi cb base s) = base"
  "onExpired (grantInitialTime B ivt oi cb base s) = Some cb"
  "onInstalled (grantInitialTime B ivt oi cb base s) = None"
  "chunkInFlight (grantInitialTime B ivt oi cb base s)"
  by (simp_all add: grantInitialTime_def send_def Let_def)

lemma expiries_0 [simp]: "expiries 0 s = s"
  by (simp add: expiries_def)

lemma expiries_Suc: "expiries (Suc n) s = virtualTimeBudgetExpired (expiries n s)"
  by (simp add: expiries_def)

lemma expiries_Suc': "expiries (Suc n) s = expiries n (virtualTimeBudgetExpired s)"
  by (simp add: expiries_def funpow_swap1)

lemma expiries_interval [simp]:
  "animationFrameInterval (expiries n s) = animationFrameInterval s"
  by (induction n) (simp_all add: expiries_Suc)

lemma expiries_onExpired [simp]: "onExpired (expiries n s) = onExpired s"
  by (induction n) (simp_all add: expiries_Suc)

lemma expiries_conserve:
  "totalElapsedTime (expiries n s) + remainingBudget (expiries n s) =
   totalElapsedTime s + remainingBudget s"
  by (induction n) (simp_all add: expiries_Suc)


lemma nextAnimationFrame_pos: "0 < animationFrameInterval s \<Longrightarrow> 0 < nextAnimationFrame s"
  using js_rem_lt [of "animationFrameInterval s" "totalElapsedTime s"]
  by (simp add: nextAnimationFrame_def)

lemma expired_chunkInFlight:
  "remainingBudget s \<noteq> lastGrantedChunk s \<Longrightarrow> chunkInFlight (virtualTimeBudgetExpired s)"
  by (simp add: virtualTimeBudgetExpired_def Let_def)

lemma expired_aligned:
  assumes "0 < animationFrameInterval s" "chunkInFlight s"
    "nextAnimationFrame s < remainingBudget s"
  shows "nextAnimationFrame (virtualTimeBudgetExpired s) = animationFrameInterval s"
proof -
  have "lastGrantedChunk s = nextAnimationFrame s"
    using assms by (simp add: chunkInFlight_def)
  then show ?thesis
    using assms(1) js_rem_next_aligned [of "animationFrameInterval s" "totalElapsedTime s"]
    by (simp add: nextAnimationFrame_def)
qed

text \<open>The shape of a grant that runs undisturbed.\<close>

lemma chunk_loop:
  assumes "0 < animationFrameInterval s" "chunkInFlight s"
    "remainingBudget s \<le> nextAnimationFrame s + of_nat m * animationFrameInterval s"
  shows "\<exists>n. 1 \<le> n \<and> n \<le> m + 1 \<and> remainingBudget (expiries n s) = 0
           \<and> (\<forall>k<n. chunkInFlight (expiries k s))
           \<and> (\<forall>k<n. 0 < k \<longrightarrow> 0 < remainingBudget (expiries k s))
           \<and> (\<forall>k. k + 1 < n \<longrightarrow> 0 < lastGrantedChunk (expiries k s)
                    \<and> lastGrantedChunk (expiries k s) < remainingBudget (expiries k s))"
  using assms
proof (induction m arbitrary: s)
  case 0
  then have "lastGrantedChunk s = remainingBudget s"
    by (simp add: chunkInFlight_def)
  then have "remainingBudget (expiries 1 s) = 0"
    by (simp add: expiries_def)
  with 0 show ?case
    by (intro exI [of _ 1]) simp
next
  case (Suc m)
  show ?case
  proof (cases "remainingBudget s \<le> nextAnimationFrame s")
    case True
    then have "lastGrantedChunk s = remainingBudget s"
      using Suc.prems by (simp add: chunkInFlight_def)
    then have "remainingBudget (expiries 1 s) = 0"
      by (simp add: expiries_def)
    with Suc.prems show ?thesis
      by (intro exI [of _ 1]) simp
  next
    case False
    let ?s' = "virtualTimeBudgetExpired s"
    from False have lt: "nextAnimationFrame s < remainingBudget s" by simp
    then have last: "lastGrantedChunk s = nextAnimationFrame s"
      using Suc.prems by (simp add: chunkInFlight_def)
    have pos: "0 < nextAnimationFrame s"
      using Suc.prems(1) by (rule nextAnimationFrame_pos)
    have c': "chunkInFlight ?s'"
      using lt last by (intro expired_chunkInFlight) simp
    have n': "nextAnimationFrame ?s' = animationFrameInterval s"
      using Suc.prems(1,2) lt by (rule expired_aligned)
    have r': "remainingBudget ?s' = remainingBudget s - nextAnimationFrame s"
      using last by simp
    have "remainingBudget ?s' \<le> nextAnimationFrame ?s' + of_nat m * animationFrameInterval ?s'"
      using Suc.prems(3) by (simp add: n' last algebra_simps)
    with Suc.IH [of ?s'] Suc.prems(1) c'
    obtain n where n: "1 \<le> n" "n \<le> m + 1" "remainingBudget (expiries n ?s') = 0"
      "\<forall>k<n. chunkInFlight (expiries k ?s')"
      "\<forall>k<n. 0 < k \<longrightarrow> 0 < remainingBudget (expiries k ?s')"
      "\<forall>k. k + 1 < n \<longrightarrow> 0 < lastGrantedChunk (expiries k ?s')
           \<and> lastGrantedChunk (expiries k ?s') < remainingBudget (expiries k ?s')"
      by auto
    have A: "\<forall>k<Suc n. chunkInFlight (expiries k s)"
    proof (intro allI impI)
      fix k assume "k < Suc n"
      then show "chunkInFlight (expiries k s)"
      proof (cases k)
        case 0
        then show ?thesis using Suc.prems(2) by simp
      next
        case (Suc j)
        have e: "expiries k s = expiries j ?s'"
          unfolding Suc by (rule expiries_Suc')
        have "j < n" using \<open>k < Suc n\<close> Suc by simp
        then show ?thesis using n(4) unfolding e by blast
      qed
    qed
    have B: "\<forall>k<Suc n. 0 < k \<longrightarrow> 0 < remainingBudget (expiries k s)"
    proof (intro allI impI)
      fix k assume k: "k < Suc n" "0 < k"
      then obtain j where j: "k = Suc j" by (cases k) auto
      have e: "expiries k s = expiries j ?s'"
        unfolding j by (rule expiries_Suc')
      show "0 < remainingBudget (expiries k s)"
      proof (cases "j = 0")
        case True
        then show ?thesis using lt last unfolding e by simp
      next
        case False
        then have "0 < j" "j < n" using k j by simp_all
        then show ?thesis using n(5) unfolding e by blast
      qed
    qed
    have C: "\<forall>k. k + 1 < Suc n \<longrightarrow> 0 < lastGrantedChunk (expiries k s)
           \<and> lastGrantedChunk (expiries k s) < remainingBudget (expiries k s)"
    proof (intro allI impI)
      fix k assume k: "k + 1 < Suc n"
      show "0 < lastGrantedChunk (expiries k s)
           \<and> lastGrantedChunk (expiries k s) < remainingBudget (expiries k s)"
      proof (cases k)
        case 0
        then show ?thesis using last pos lt by simp
      next
        case (Suc j)
        have e: "expiries k s = expiries j ?s'"
          unfolding Suc by (rule expiries_Suc')
        have "j + 1 < n" using k Suc by simp
        then show ?thesis using n(6) unfolding e by blast
      qed
    qed
    have D: "remainingBudget (expiries (Suc n) s) = 0"
      using n(3) unfolding expiries_Suc' .
    show ?thesis
      using n(1,2) A B C D by (intro exI [of _ "Suc n"]) simp
  qed
qed

section \<open>Traces\<close>

lemma budgets_append [simp]: "budgets (xs @ ys) = budgets xs @ budgets ys"
  by (induction xs rule: budgets.induct) simp_all

lemma expiredCalls_append [simp]: "expiredCalls (xs @ ys) = expiredCalls xs @ expiredCalls ys"
  by (induction xs rule: expiredCalls.induct) simp_all

lemma installedCalls_append [simp]:
  "installedCalls (xs @ ys) = installedCalls xs @ installedCalls ys"
  by (induction xs rule: installedCalls.induct) simp_all

lemma screenshotTimes_append [simp]:
  "screenshotTimes (xs @ ys) = screenshotTimes xs @ screenshotTimes ys"
  by (induction xs rule: screenshotTimes.induct) simp_all

lemma issue_budgets:
  "budgets (browser (issueAnimationFrameAndScheduleNextChunk s)) =
   budgets (browser s) @ [min (nextAnimationFrame s) (remainingBudget s)]"
  by (simp add: issueAnimationFrameAndScheduleNextChunk_def scheduleNextChunk_def send_def
      Let_def nextAnimationFrame_def split: option.split)


lemma issue_installedCalls:
  "installedCalls (browser (issueAnimationFrameAndScheduleNextChunk s)) =
   installedCalls (browser s) @
     (case onInstalled s of Some cb \<Rightarrow> [(cb, virtualTimeBase s)] | None \<Rightarrow> [])"
  by (simp add: issueAnimationFrameAndScheduleNextChunk_def scheduleNextChunk_def send_def
      Let_def split: option.split)

lemma issue_screenshotTimes:
  "screenshotTimes (browser (issueAnimationFrameAndScheduleNextChunk s)) =
   screenshotTimes (browser s)"
  by (simp add: issueAnimationFrameAndScheduleNextChunk_def scheduleNextChunk_def send_def
      Let_def split: option.split)

lemma expired_budgets:
  "budgets (browser (virtualTimeBudgetExpired s)) =
   budgets (browser s) @
     (if remainingBudget s = lastGrantedChunk s then []
      else [lastGrantedChunk (virtualTimeBudgetExpired s)])"
  by (simp add: virtualTimeBudgetExpired_def Let_def issue_budgets send_def split: option.split)


lemma grantTime_budgets:
  "budgets (browser (grantTime B cb s)) = budgets (browser s) @ [lastGrantedChunk (grantTime B cb s)]"
  by (simp add: grantTime_def issue_budgets)


lemma grantInitialTime_budgets:
  "budgets (browser (grantInitialTime B ivt oi cb base s)) =
   budgets (browser s) @ [lastGrantedChunk (grantInitialTime B ivt oi cb base s)]"
  by (simp add: grantInitialTime_def Let_def grantTime_budgets send_def)


text \<open>The requests and callbacks of a grant that completes at the \<open>n\<close>-th expiry.\<close>

lemma expiries_budgets_upto:
  assumes "\<forall>k<n. 0 < k \<longrightarrow> remainingBudget (expiries k s) \<noteq> 0" "j < n"
  shows "budgets (browser (expiries j s)) =
         budgets (browser s) @ map (\<lambda>k. lastGrantedChunk (expiries k s)) [1..<Suc j]"
  using assms(2)
proof (induction j)
  case 0
  then show ?case by simp
next
  case (Suc j)
  then have "remainingBudget (expiries (Suc j) s) \<noteq> 0" using assms(1) by simp
  then have "remainingBudget (expiries j s) \<noteq> lastGrantedChunk (expiries j s)"
    by (simp add: expiries_Suc)
  then have "budgets (browser (expiries (Suc j) s)) =
      budgets (browser (expiries j s)) @ [lastGrantedChunk (expiries (Suc j) s)]"
    by (simp add: expiries_Suc expired_budgets)
  with Suc show ?case by simp
qed

lemma expiries_budgets_final:
  assumes "\<forall>k<n. 0 < k \<longrightarrow> remainingBudget (expiries k s) \<noteq> 0" "1 \<le> n"
    "remainingBudget (expiries n s) = 0"
  shows "budgets (browser (expiries n s)) =
         budgets (browser s) @ map (\<lambda>k. lastGrantedChunk (expiries k s)) [1..<n]"
proof -
  obtain j where j: "n = Suc j" using assms(2) by (cases n) auto
  have "remainingBudget (expiries j s) = lastGrantedChunk (expiries j s)"
    using assms(3) by (simp add: j expiries_Suc)
  then have "budgets (browser (expiries n s)) = budgets (browser (expiries j s))"
    by (simp add: j expiries_Suc expired_budgets)
  then show ?thesis
    using expiries_budgets_upto [OF assms(1), of j] by (simp add: j)
qed





lemma budget_le_ceiling:
  assumes "0 < (A::rat)" shows "B \<le> of_nat (nat \<lceil>B / A\<rceil>) * A"
proof -
  have le: "B / A \<le> of_int \<lceil>B / A\<rceil>" by linarith
  have "B / A \<le> of_nat (nat \<lceil>B / A\<rceil>)"
  proof (cases "0 \<le> \<lceil>B / A\<rceil>")
    case True
    then have "(of_nat (nat \<lceil>B / A\<rceil>) :: rat) = of_int \<lceil>B / A\<rceil>"
      by (metis of_int_of_nat_eq nat_0_le)
    with le show ?thesis by simp
  next
    case False
    then have "(of_int \<lceil>B / A\<rceil> :: rat) \<le> 0" by simp
    with le have "B / A \<le> 0" by (rule order_trans)
    also have "(0::rat) \<le> of_nat (nat \<lceil>B / A\<rceil>)" by simp
    finally show ?thesis .
  qed
  then have "B / A * A \<le> of_nat (nat \<lceil>B / A\<rceil>) * A"
    using assms by (intro mult_right_mono) simp_all
  then show ?thesis using assms by simp
qed



section \<open>Orderly sessions\<close>

lemma capture_fields [simp]:
  "totalElapsedTime (snd (captureScreenshot opts d s)) = totalElapsedTime s"
  "remainingBudget (snd (captureScreenshot opts d s)) = remainingBudget s"
  "lastGrantedChunk (snd (captureScreenshot opts d s)) = lastGrantedChunk s"
  "animationFrameInterval (snd (captureScreenshot opts d s)) = animationFrameInterval s"
  "maxTaskStarvationCount (snd (captureScreenshot opts d s)) = maxTaskStarvationCount s"
  "virtualTimeBase (snd (captureScreenshot opts d s)) = virtualTimeBase s + 1 / 100"
  "onExpired (snd (captureScreenshot opts d s)) = onExpired s"
  "onInstalled (snd (captureScreenshot opts d s)) = onInstalled s"
  "browser (snd (captureScreenshot opts d s)) =
     browser s @ [BeginFrame (currentFrameTime s) None (Some opts)]"
  by (simp_all add: captureScreenshot_def send_def Let_def)

lemma capture_chunkInFlight [simp]:
  "chunkInFlight (snd (captureScreenshot opts d s)) = chunkInFlight s"
  by (simp add: chunkInFlight_def nextAnimationFrame_def)

lemma stop_idle [simp]: "remainingBudget s = 0 \<Longrightarrow> stopVirtualTimeGracefully s = s"
  by (simp add: stopVirtualTimeGracefully_def)










lemma expired_screenshotTimes [simp]:
  "screenshotTimes (browser (virtualTimeBudgetExpired s)) = screenshotTimes (browser s)"
  by (simp add: virtualTimeBudgetExpired_def Let_def issue_screenshotTimes send_def
      split: option.split)

lemma grantTime_screenshotTimes [simp]:
  "screenshotTimes (browser (grantTime B cb s)) = screenshotTimes (browser s)"
  by (simp add: grantTime_def issue_screenshotTimes)

lemma grantInitialTime_screenshotTimes [simp]:
  "screenshotTimes (browser (grantInitialTime B ivt oi cb base s)) = screenshotTimes (browser s)"
  by (simp add: grantInitialTime_def Let_def send_def)

lemma expired_installedCalls:
  "onInstalled s = None \<Longrightarrow>
   installedCalls (browser (virtualTimeBudgetExpired s)) = installedCalls (browser s)"
  by (simp add: virtualTimeBudgetExpired_def Let_def issue_installedCalls send_def
      split: option.split)

lemma expired_onInstalled:
  "onInstalled s = None \<Longrightarrow> onInstalled (virtualTimeBudgetExpired s) = None"
  by (simp add: virtualTimeBudgetExpired_def Let_def send_def split: option.split)

lemma grantTime_installedCalls:
  "onInstalled s = None \<Longrightarrow>
   installedCalls (browser (grantTime B cb s)) = installedCalls (browser s)"
  by (simp add: grantTime_def issue_installedCalls)

lemma grantInitialTime_installedCalls:
  "installedCalls (browser (grantInitialTime B ivt oi cb base s)) =
   installedCalls (browser s) @ [(oi, base)]"
  by (simp add: grantInitialTime_def Let_def grantTime_def issue_installedCalls send_def)

lemma stop_fields [simp]:
  "browser (stopVirtualTimeGracefully s) = browser s"
  "onInstalled (stopVirtualTimeGracefully s) = onInstalled s"
  "totalElapsedTime (stopVirtualTimeGracefully s) = totalElapsedTime s"
  "virtualTimeBase (stopVirtualTimeGracefully s) = virtualTimeBase s"
  "animationFrameInterval (stopVirtualTimeGracefully s) = animationFrameInterval s"
  by (simp_all add: stopVirtualTimeGracefully_def)

lemma session_installedCalls:
  "onInstalled s = None \<Longrightarrow>
   installedCalls (browser (session xs s)) = installedCalls (browser s) @ installs xs
   \<and> onInstalled (session xs s) = None"
proof (induction xs arbitrary: s)
  case Nil
  then show ?case by simp
next
  case (Cons x xs)
  have "onInstalled (apply_op x s) = None
      \<and> installedCalls (browser (apply_op x s)) = installedCalls (browser s) @ installs [x]"
    using Cons.prems
    by (cases x) (simp_all add: expired_onInstalled expired_installedCalls
        grantTime_installedCalls grantInitialTime_installedCalls)
  moreover have "installs (x # xs) = installs [x] @ installs xs"
    by (cases x) simp_all
  ultimately show ?case
    using Cons.IH [of "apply_op x s"] by simp
qed



lemma grantInitialTime_browser:
  "browser (grantInitialTime B ivt oi oe base s) =
     browser s @
     [SetVirtualTimePolicyPause ivt, BeginFrame base (Some False) None] @
     (if 0 < totalElapsedTime s \<and> 0 < B
           \<and> js_rem (totalElapsedTime s) (animationFrameInterval s) = 0
      then [BeginFrame (base + totalElapsedTime s) (Some True) None] else []) @
     [SetVirtualTimePolicy (min (nextAnimationFrame s) B) (maxTaskStarvationCount s)
        (totalElapsedTime s = 0),
      OnInstalled oi base]"
  by (simp add: grantInitialTime_def grantTime_def issueAnimationFrameAndScheduleNextChunk_def
      scheduleNextChunk_def send_def Let_def nextAnimationFrame_def)

section \<open>Frame names\<close>

lemma digit_cases:
  assumes "d < (10::nat)"
  shows "d = 0 \<or> d = 1 \<or> d = 2 \<or> d = 3 \<or> d = 4 \<or> d = 5 \<or> d = 6 \<or> d = 7 \<or> d = 8 \<or> d = 9"
  using assms by arith

lemma digitValue_digit: "d < 10 \<Longrightarrow> digitValue (''0123456789'' ! d) = d"
  using digit_cases [of d] by (auto simp: digitValue_def)

lemma isDigit_digit: "d < 10 \<Longrightarrow> isDigit (''0123456789'' ! d)"
  using digit_cases [of d] by (auto simp: isDigit_def)

lemma fromDecimal_snoc: "fromDecimal (s @ [c]) = 10 * fromDecimal s + digitValue c"
  by (simp add: fromDecimal_def)

lemma fromDecimal_toString: "fromDecimal (toString n) = n"
proof (induction n rule: toString.induct)
  case (1 n)
  show ?case
  proof (cases "n < 10")
    case True
    then show ?thesis
      by (subst toString.simps) (simp add: fromDecimal_def digitValue_digit)
  next
    case False
    then have "fromDecimal (toString (n div 10)) = n div 10" by (rule "1.IH")
    then show ?thesis
      using False by (subst toString.simps) (simp add: fromDecimal_snoc digitValue_digit)
  qed
qed

lemma toString_digits: "\<forall>c \<in> set (toString n). isDigit c"
proof (induction n rule: toString.induct)
  case (1 n)
  show ?case
  proof (cases "n < 10")
    case True
    then show ?thesis
      by (subst toString.simps) (simp add: isDigit_digit)
  next
    case False
    then have "\<forall>c \<in> set (toString (n div 10)). isDigit c" by (rule "1.IH")
    then show ?thesis
      using False by (subst toString.simps) (simp add: isDigit_digit)
  qed
qed

lemma length_toString: "n < 10 ^ k \<Longrightarrow> 0 < k \<Longrightarrow> length (toString n) \<le> k"
proof (induction n arbitrary: k rule: toString.induct)
  case (1 n)
  show ?case
  proof (cases "n < 10")
    case True
    then show ?thesis
      using "1.prems" by (subst toString.simps) simp
  next
    case False
    obtain j where k: "k = Suc j" using "1.prems"(2) by (cases k) auto
    have j: "0 < j"
    proof (rule ccontr)
      assume "\<not> 0 < j"
      then show False using "1.prems"(1) False k by simp
    qed
    have "n div 10 < 10 ^ j"
      using "1.prems"(1) k by (simp add: less_mult_imp_div_less mult.commute)
    from "1.IH" [OF False this j] show ?thesis
      using False k by (subst toString.simps) simp
  qed
qed

lemma toString_nonempty: "toString n \<noteq> []"
  by (subst toString.simps) simp

lemma fromDecimal_zeros: "fromDecimal (replicate k (CHR ''0'') @ s) = fromDecimal s"
proof -
  have "foldl (\<lambda>n c. 10 * n + digitValue c) 0 (replicate k (CHR ''0'')) = 0"
    by (induction k) (simp_all add: digitValue_def)
  then show ?thesis by (simp add: fromDecimal_def)
qed

text \<open>What a frame name says.\<close>

lemma frameFilenameOf_shape:
  "frameFilenameOf opts i =
     ''frame-'' @ padStart 7 (CHR ''0'') (toString i) @ ''.'' @ extension opts
   \<and> fromDecimal (padStart 7 (CHR ''0'') (toString i)) = i
   \<and> (\<forall>c \<in> set (padStart 7 (CHR ''0'') (toString i)). isDigit c)
   \<and> 7 \<le> length (padStart 7 (CHR ''0'') (toString i))
   \<and> (i < 10 ^ 7 \<longrightarrow> length (padStart 7 (CHR ''0'') (toString i)) = 7)"
proof -
  have "isDigit (CHR ''0'')" by (simp add: isDigit_def)
  then have d: "\<forall>c \<in> set (padStart 7 (CHR ''0'') (toString i)). isDigit c"
    using toString_digits [of i] by (auto simp: padStart_def)
  have l: "i < 10 ^ 7 \<longrightarrow> length (padStart 7 (CHR ''0'') (toString i)) = 7"
    using length_toString [of i 7] by (auto simp: padStart_def)
  show ?thesis
    using d l by (simp add: frameFilenameOf_def fromDecimal_zeros fromDecimal_toString
        padStart_def)
qed

section \<open>The event loop\<close>

lemma callbackCalls_append [simp]:
  "callbackCalls (xs @ ys) = callbackCalls xs @ callbackCalls ys"
  by (induction xs rule: callbackCalls.induct) simp_all

lemma send_fields [simp]:
  "browser (send ev s) = browser s @ [ev]"
  "totalElapsedTime (send ev s) = totalElapsedTime s"
  "remainingBudget (send ev s) = remainingBudget s"
  "lastGrantedChunk (send ev s) = lastGrantedChunk s"
  "animationFrameInterval (send ev s) = animationFrameInterval s"
  "maxTaskStarvationCount (send ev s) = maxTaskStarvationCount s"
  "virtualTimeBase (send ev s) = virtualTimeBase s"
  "onExpired (send ev s) = onExpired s"
  "onInstalled (send ev s) = onInstalled s"
  by (simp_all add: send_def)

lemma send_chunkInFlight [simp]: "chunkInFlight (send ev s) = chunkInFlight s"
  by (simp add: chunkInFlight_def nextAnimationFrame_def)

lemma issue_callbackCalls:
  "callbackCalls (browser (issueAnimationFrameAndScheduleNextChunk s)) =
   callbackCalls (browser s) @
     (case onInstalled s of Some cb \<Rightarrow> [(cb, virtualTimeBase s)] | None \<Rightarrow> [])"
  by (simp add: issueAnimationFrameAndScheduleNextChunk_def scheduleNextChunk_def send_def
      Let_def split: option.split)

lemma expired_callbackCalls:
  "callbackCalls (browser (virtualTimeBudgetExpired s)) =
   callbackCalls (browser s) @
     (if remainingBudget s = lastGrantedChunk s
      then (case onExpired s of Some cb \<Rightarrow> [(cb, totalElapsedTime s + lastGrantedChunk s)]
            | None \<Rightarrow> [])
      else (case onInstalled s of Some cb \<Rightarrow> [(cb, virtualTimeBase s)] | None \<Rightarrow> []))"
  by (simp add: virtualTimeBudgetExpired_def Let_def issue_callbackCalls send_def
      split: option.split)

lemma grantTime_callbackCalls:
  "onInstalled s = None \<Longrightarrow>
   callbackCalls (browser (grantTime B cb s)) = callbackCalls (browser s)"
  by (simp add: grantTime_def issue_callbackCalls)

lemma expiries_onInstalled:
  "onInstalled s = None \<Longrightarrow> onInstalled (expiries n s) = None"
  by (induction n) (simp_all add: expiries_Suc expired_onInstalled)

lemma expiries_screenshotTimes [simp]:
  "screenshotTimes (browser (expiries n s)) = screenshotTimes (browser s)"
  by (induction n) (simp_all add: expiries_Suc)

lemma controllerEvent_quiet:
  "callbackCalls (browser (f (controller w))) = callbackCalls (browser (controller w)) \<Longrightarrow>
   controllerEvent f e a w = w\<lparr>controller := f (controller w)\<rparr>"
  by (simp add: controllerEvent_def Let_def)

lemma controllerEvent_one:
  "callbackCalls (browser (f (controller w))) = callbackCalls (browser (controller w)) @ [x] \<Longrightarrow>
   controllerEvent f e a w = invoke e a x (w\<lparr>controller := f (controller w)\<rparr>)"
  by (simp add: controllerEvent_def Let_def)

lemma in_flight_shape:
  assumes "0 < animationFrameInterval s" "chunkInFlight s"
  shows "\<exists>n. 1 \<le> n \<and> remainingBudget (expiries n s) = 0
           \<and> (\<forall>k<n. 0 < k \<longrightarrow> remainingBudget (expiries k s) \<noteq> 0)"
proof -
  have "0 < nextAnimationFrame s" using assms(1) by (rule nextAnimationFrame_pos)
  then have "remainingBudget s \<le> nextAnimationFrame s
      + of_nat (nat \<lceil>remainingBudget s / animationFrameInterval s\<rceil>) * animationFrameInterval s"
    using budget_le_ceiling [OF assms(1), of "remainingBudget s"] by simp
  from chunk_loop [OF assms this] show ?thesis by fastforce
qed

text \<open>The event loop hands the chunks of a grant to the handler one by one.\<close>

lemma eventLoop_step:
  "pendingExpiries w \<noteq> 0 \<Longrightarrow>
   eventLoop (Suc fuel) e a w =
   eventLoop fuel e a
     (controllerEvent virtualTimeBudgetExpired e a
        (w\<lparr>expiriesDelivered := expiriesDelivered w + 1\<rparr>))"
  by simp

lemma eventLoop_idle: "pendingExpiries w = 0 \<Longrightarrow> eventLoop fuel e a w = w"
  by (cases fuel) simp_all

declare eventLoop.simps [simp del]

lemma eventLoop_chunks:
  assumes nz: "\<forall>k<n. 0 < k \<longrightarrow> remainingBudget (expiries k c) \<noteq> 0"
    and c: "controller w = c" "onInstalled c = None"
      "length (budgets (browser c)) = Suc (expiriesDelivered w)"
  shows "j < n \<Longrightarrow> eventLoop (j + fuel) e a w =
     eventLoop fuel e a
       (w\<lparr>controller := expiries j c, expiriesDelivered := expiriesDelivered w + j\<rparr>)"
proof (induction j arbitrary: fuel)
  case 0
  have "w\<lparr>controller := c\<rparr> = w" by (simp add: c(1) [symmetric])
  then show ?case by simp
next
  case (Suc j)
  let ?W = "w\<lparr>controller := expiries j c, expiriesDelivered := expiriesDelivered w + j\<rparr>"
  from Suc.prems have j: "j < n" by simp
  have "eventLoop (Suc j + fuel) e a w = eventLoop (j + Suc fuel) e a w" by simp
  also have "\<dots> = eventLoop (Suc fuel) e a ?W" by (rule Suc.IH [OF j])
  also have "\<dots> = eventLoop fuel e a
      (controllerEvent virtualTimeBudgetExpired e a
         (?W\<lparr>expiriesDelivered := expiriesDelivered ?W + 1\<rparr>))"
  proof -
    have "length (budgets (browser (expiries j c))) = Suc (expiriesDelivered w) + j"
      using expiries_budgets_upto [OF nz j] c(3) by simp
    then have "pendingExpiries ?W \<noteq> 0" by (simp add: pendingExpiries_def)
    then show ?thesis by (rule eventLoop_step)
  qed
  also have "controllerEvent virtualTimeBudgetExpired e a
         (?W\<lparr>expiriesDelivered := expiriesDelivered ?W + 1\<rparr>) =
      w\<lparr>controller := expiries (Suc j) c, expiriesDelivered := expiriesDelivered w + Suc j\<rparr>"
  proof -
    have "remainingBudget (expiries (Suc j) c) \<noteq> 0" using nz Suc.prems by simp
    then have ne: "remainingBudget (expiries j c) \<noteq> lastGrantedChunk (expiries j c)"
      by (simp add: expiries_Suc)
    have "callbackCalls (browser (virtualTimeBudgetExpired (expiries j c))) =
        callbackCalls (browser (expiries j c))"
      using ne expiries_onInstalled [OF c(2), of j] by (simp add: expired_callbackCalls)
    then show ?thesis
      by (subst controllerEvent_quiet) (simp_all add: expiries_Suc)
  qed
  finally show ?case .
qed

lemma eventLoop_grant:
  assumes "0 < animationFrameInterval c" "chunkInFlight c"
    and c: "controller w = c" "onInstalled c = None" "onExpired c = Some cb"
      "length (budgets (browser c)) = Suc (expiriesDelivered w)"
  shows "\<exists>n c'. (\<forall>fuel. eventLoop (n + fuel) e a w =
             eventLoop fuel e a
               (invoke e a (cb, totalElapsedTime c + remainingBudget c)
                  (w\<lparr>controller := c', expiriesDelivered := expiriesDelivered w + n\<rparr>)))
     \<and> remainingBudget c' = 0 \<and> totalElapsedTime c' = totalElapsedTime c + remainingBudget c
     \<and> animationFrameInterval c' = animationFrameInterval c
     \<and> onInstalled c' = None \<and> onExpired c' = Some cb
     \<and> length (budgets (browser c')) = expiriesDelivered w + n
     \<and> screenshotTimes (browser c') = screenshotTimes (browser c)"
proof -
  from in_flight_shape [OF assms(1,2)] obtain n where n: "1 \<le> n"
    "remainingBudget (expiries n c) = 0"
    "\<forall>k<n. 0 < k \<longrightarrow> remainingBudget (expiries k c) \<noteq> 0"
    by blast
  obtain j where j: "n = Suc j" using n(1) by (cases n) auto
  let ?W = "w\<lparr>controller := expiries j c, expiriesDelivered := expiriesDelivered w + j\<rparr>"
  let ?c' = "expiries n c"
  have lenj: "length (budgets (browser (expiries j c))) = Suc (expiriesDelivered w) + j"
    using expiries_budgets_upto [OF n(3), of j] c(4) j by simp
  have eq: "remainingBudget (expiries j c) = lastGrantedChunk (expiries j c)"
    using n(2) by (simp add: j expiries_Suc)
  have t: "totalElapsedTime (expiries j c) + lastGrantedChunk (expiries j c) =
      totalElapsedTime c + remainingBudget c"
    using expiries_conserve [of j c] eq by simp
  have calls: "callbackCalls (browser (virtualTimeBudgetExpired (expiries j c))) =
      callbackCalls (browser (expiries j c)) @ [(cb, totalElapsedTime c + remainingBudget c)]"
    using eq t c(3) by (simp add: expired_callbackCalls)
  have loop: "eventLoop (n + fuel) e a w =
      eventLoop fuel e a
        (invoke e a (cb, totalElapsedTime c + remainingBudget c)
           (w\<lparr>controller := ?c', expiriesDelivered := expiriesDelivered w + n\<rparr>))" for fuel
  proof -
    have "j < n" by (simp add: j)
    have "eventLoop (n + fuel) e a w = eventLoop (j + Suc fuel) e a w" by (simp add: j)
    also have "\<dots> = eventLoop (Suc fuel) e a ?W"
      using \<open>j < n\<close> by (rule eventLoop_chunks [OF n(3) c(1,2,4)])
    also have "\<dots> = eventLoop fuel e a
        (controllerEvent virtualTimeBudgetExpired e a
           (?W\<lparr>expiriesDelivered := expiriesDelivered ?W + 1\<rparr>))"
    proof -
      have "pendingExpiries ?W \<noteq> 0" using lenj by (simp add: pendingExpiries_def)
      then show ?thesis by (rule eventLoop_step)
    qed
    also have "controllerEvent virtualTimeBudgetExpired e a
           (?W\<lparr>expiriesDelivered := expiriesDelivered ?W + 1\<rparr>) =
        invoke e a (cb, totalElapsedTime c + remainingBudget c)
           (w\<lparr>controller := ?c', expiriesDelivered := expiriesDelivered w + n\<rparr>)"
    proof -
      have "w\<lparr>expiriesDelivered := Suc (expiriesDelivered w + j),
               controller := virtualTimeBudgetExpired (expiries j c)\<rparr> =
            w\<lparr>controller := virtualTimeBudgetExpired (expiries j c),
               expiriesDelivered := Suc (expiriesDelivered w + j)\<rparr>"
        by (cases w) simp
      note swap = this
      show ?thesis
        using calls by (subst controllerEvent_one) (simp_all add: j expiries_Suc swap)
    qed
    finally show ?thesis .
  qed
  have len: "length (budgets (browser ?c')) = expiriesDelivered w + n"
    using expiries_budgets_final [OF n(3,1,2)] c(4) j by simp
  have e': "totalElapsedTime ?c' = totalElapsedTime c + remainingBudget c"
    using expiries_conserve [of n c] n(2) by simp
  show ?thesis
    using loop n(2) e' len expiries_onInstalled [OF c(2), of n] c(3)
    by (intro exI [of _ n] exI [of _ ?c']) simp
qed

lemma fst_captureScreenshot [simp]: "fst (captureScreenshot opts d s) = d"
  by (simp add: captureScreenshot_def Let_def)

lemma capture_screenshotTimes:
  "screenshotTimes (browser (snd (captureScreenshot opts d s))) =
   screenshotTimes (browser s) @ [currentFrameTime s]"
  by simp

lemma capture_budgets [simp]:
  "budgets (browser (snd (captureScreenshot opts d s))) = budgets (browser s)"
  by simp

lemma continue_iff:
  "(of_nat (Suc k) < (N::rat)) = (Suc k < max 1 (nat \<lceil>N\<rceil>))"
proof -
  have "(of_nat (Suc k) < N) = (of_int (int (Suc k)) < N)" by simp
  also have "\<dots> = (int (Suc k) < \<lceil>N\<rceil>)" by (rule less_ceiling_iff [symmetric])
  also have "\<dots> = (Suc k < nat \<lceil>N\<rceil>)" by (rule zless_nat_eq_int_zless [symmetric])
  also have "\<dots> = (Suc k < max 1 (nat \<lceil>N\<rceil>))" by (auto simp: max_def)
  finally show ?thesis .
qed

lemma frameNames_Suc:
  "frameNames a (Suc k) = frameNames a k @ [frameFilenameOf (screenshotOptionsOf a) (Suc k)]"
  by (simp add: frameNames_def)

lemma framesWritten_Suc:
  "framesWritten e a (Suc k) =
   framesWritten e a k @
     [WriteFileSync (frameFilenameOf (screenshotOptionsOf a) (Suc k)) (screenshotData e (Suc k))]"
  by (simp add: framesWritten_def)

text \<open>The body of \<open>timeExpired\<close>, once the grant before frame \<open>k + 1\<close> has expired.\<close>

lemma timeExpired_step:
  assumes "0 < animationFrameInterval (controller w)" "onInstalled (controller w) = None"
    "length (budgets (browser (controller w))) = expiriesDelivered w"
    "frameCounter w = Suc k" "allFrameFilenames w = frameNames a k"
    "fileSystem w = framesWritten e a k"
    "length (screenshotTimes (browser (controller w))) = k"
    "ffmpeg w = None" "console w = []"
  shows "if of_nat (Suc k) < totalFramesToCapture a
         then capturing e a (Suc k) (timeExpired e a w)
         else captured e a (Suc k) (timeExpired e a w)"
proof (cases "of_nat (Suc k) < totalFramesToCapture a")
  case True
  then show ?thesis
    using assms
    by (simp add: timeExpired_def case_prod_beta Let_def capturing_def frameNames_Suc
        framesWritten_Suc grantTime_budgets)
next
  case False
  then show ?thesis
    using assms
    by (simp add: timeExpired_def case_prod_beta Let_def captured_def frameNames_Suc
        framesWritten_Suc finish_def startFfmpeg_def unlinkAll_def)
qed

lemma captured_idle: "captured e a k w \<Longrightarrow> eventLoop fuel e a w = w"
  by (rule eventLoop_idle) (simp add: captured_def pendingExpiries_def)

text \<open>One round of the loop: the grant in flight runs out and frame \<open>k + 1\<close> is captured.\<close>

lemma capturing_round:
  assumes "capturing e a k w"
  shows "\<exists>n w'. (\<forall>fuel. eventLoop (n + fuel) e a w = eventLoop fuel e a w')
     \<and> (if of_nat (Suc k) < totalFramesToCapture a
         then capturing e a (Suc k) w' else captured e a (Suc k) w')"
proof -
  let ?c = "controller w"
  from assms have c: "0 < animationFrameInterval ?c" "chunkInFlight ?c"
    "onInstalled ?c = None" "onExpired ?c = Some TimeExpired"
    "length (budgets (browser ?c)) = Suc (expiriesDelivered w)"
    and w: "frameCounter w = Suc k" "allFrameFilenames w = frameNames a k"
    "fileSystem w = framesWritten e a k" "length (screenshotTimes (browser ?c)) = k"
    "ffmpeg w = None" "console w = []"
    by (simp_all add: capturing_def)
  from eventLoop_grant [OF c(1,2) refl c(3,4,5), of e a] obtain n c' where
    loop: "\<And>fuel. eventLoop (n + fuel) e a w =
             eventLoop fuel e a
               (invoke e a (TimeExpired, totalElapsedTime ?c + remainingBudget ?c)
                  (w\<lparr>controller := c', expiriesDelivered := expiriesDelivered w + n\<rparr>))"
    and c': "animationFrameInterval c' = animationFrameInterval ?c" "onInstalled c' = None"
      "length (budgets (browser c')) = expiriesDelivered w + n"
      "screenshotTimes (browser c') = screenshotTimes (browser ?c)"
    by blast
  let ?W = "w\<lparr>controller := c', expiriesDelivered := expiriesDelivered w + n\<rparr>"
  have "if of_nat (Suc k) < totalFramesToCapture a
        then capturing e a (Suc k) (timeExpired e a ?W)
        else captured e a (Suc k) (timeExpired e a ?W)"
    by (rule timeExpired_step) (use c c' w in simp_all)
  then show ?thesis
    using loop by (intro exI [of _ n] exI [of _ "timeExpired e a ?W"]) simp
qed

lemma capture_loop:
  assumes K: "K = max 1 (nat \<lceil>totalFramesToCapture a\<rceil>)"
  shows "capturing e a k w \<Longrightarrow> k < K \<Longrightarrow> d = K - Suc k \<Longrightarrow>
    \<exists>n w'. (\<forall>fuel. eventLoop (n + fuel) e a w = w') \<and> captured e a K w'"
proof (induction d arbitrary: k w)
  case 0
  then have k: "Suc k = K" by simp
  then have "\<not> Suc k < max 1 (nat \<lceil>totalFramesToCapture a\<rceil>)"
    using K by simp
  then have stop: "\<not> of_nat (Suc k) < totalFramesToCapture a"
    unfolding continue_iff .
  from capturing_round [OF "0.prems"(1)] obtain n w' where
    "\<And>fuel. eventLoop (n + fuel) e a w = eventLoop fuel e a w'" "captured e a (Suc k) w'"
    using stop by auto
  then show ?case
    using captured_idle [of e a "Suc k" w'] k by auto
next
  case (Suc d)
  then have k: "Suc k < K" by simp
  then have "Suc k < max 1 (nat \<lceil>totalFramesToCapture a\<rceil>)"
    using K by simp
  then have go: "of_nat (Suc k) < totalFramesToCapture a"
    unfolding continue_iff .
  from capturing_round [OF Suc.prems(1)] obtain n w' where
    1: "\<And>fuel. eventLoop (n + fuel) e a w = eventLoop fuel e a w'" "capturing e a (Suc k) w'"
    using go by auto
  have "d = K - Suc (Suc k)" using Suc.prems(3) by simp
  from Suc.IH [OF 1(2) k this] obtain m w'' where
    2: "\<And>fuel. eventLoop (m + fuel) e a w' = w''" "captured e a K w''"
    by blast
  have "eventLoop (n + m + fuel) e a w = w''" for fuel
    using 1(1) [of "m + fuel"] 2(1) [of fuel] by (simp add: add.assoc)
  then show ?case
    using 2(2) by blast
qed

text \<open>From the start of \<open>run\<close> to the first grant of the capture loop.\<close>

lemma run_start:
  "\<exists>n w. (\<forall>fuel. eventLoop (n + fuel) e a
             (controllerEvent
                (grantInitialTime 1 10000 OnInstalledCallback OnExpiredCallback
                   (virtualTimeTicksBase e)) e a
                \<lparr>controller = newVirtualTimeController None None,
                  expiriesDelivered = 0, frameCounter = 0, allFrameFilenames = [],
                  fileSystem = [], console = [], ffmpeg = None\<rparr>) =
           eventLoop fuel e a w)
     \<and> capturing e a 0 w"
proof -
  let ?c0 = "newVirtualTimeController None None :: callback controller"
  let ?g = "grantInitialTime 1 10000 OnInstalledCallback OnExpiredCallback
              (virtualTimeTicksBase e) ?c0"
  let ?w0 = "\<lparr>controller = ?c0, expiriesDelivered = 0, frameCounter = 0,
      allFrameFilenames = [], fileSystem = [], console = [], ffmpeg = None\<rparr>"
  let ?c1 = "send PageLoadEventFired (send (PageNavigate (url a)) ?g)"
  let ?w1 = "?w0\<lparr>controller := ?c1\<rparr>"
  have c0: "browser ?c0 = []" "animationFrameInterval ?c0 = 16"
    by (simp_all add: newVirtualTimeController_def orDefault_def)
  have "callbackCalls (browser ?g) =
      callbackCalls (browser ?c0) @ [(OnInstalledCallback, virtualTimeTicksBase e)]"
    by (simp add: grantInitialTime_browser c0)
  then have 1: "controllerEvent
      (grantInitialTime 1 10000 OnInstalledCallback OnExpiredCallback (virtualTimeTicksBase e))
      e a ?w0 = ?w1"
    by (subst controllerEvent_one [where x = "(OnInstalledCallback, virtualTimeTicksBase e)"])
      simp_all
  have c1: "0 < animationFrameInterval ?c1" "chunkInFlight ?c1" "controller ?w1 = ?c1"
    "onInstalled ?c1 = None" "onExpired ?c1 = Some OnExpiredCallback"
    "length (budgets (browser ?c1)) = Suc (expiriesDelivered ?w1)"
    "screenshotTimes (browser ?c1) = []"
    by (simp_all add: c0 grantInitialTime_budgets)
  from eventLoop_grant [OF c1(1,2,3,4,5,6), of e a] obtain n c' where
    loop: "\<And>fuel. eventLoop (n + fuel) e a ?w1 =
             eventLoop fuel e a
               (invoke e a (OnExpiredCallback, totalElapsedTime ?c1 + remainingBudget ?c1)
                  (?w1\<lparr>controller := c', expiriesDelivered := expiriesDelivered ?w1 + n\<rparr>))"
    and c': "animationFrameInterval c' = animationFrameInterval ?c1" "onInstalled c' = None"
      "length (budgets (browser c')) = expiriesDelivered ?w1 + n"
      "screenshotTimes (browser c') = screenshotTimes (browser ?c1)"
    by blast
  let ?w2 = "invoke e a (OnExpiredCallback, totalElapsedTime ?c1 + remainingBudget ?c1)
                  (?w1\<lparr>controller := c', expiriesDelivered := expiriesDelivered ?w1 + n\<rparr>)"
  have "capturing e a 0 ?w2"
    using c' c1(1,7)
    by (simp add: capturing_def Let_def grantTime_budgets frameNames_def framesWritten_def)
  then show ?thesis
    using loop unfolding 1 by blast
qed

text \<open>With enough fuel the run ends with \<open>max 1 \<lceil>frameCount\<rceil>\<close> frames captured, and more
  fuel changes nothing.\<close>

lemma run_final:
  "\<exists>fuel0 w. captured e a (max 1 (nat \<lceil>totalFramesToCapture a\<rceil>)) w
     \<and> (\<forall>fuel. run (fuel0 + fuel) e a =
           (case ffmpeg w of Some job \<Rightarrow> ffmpegOn a (ffmpegResult e) w | None \<Rightarrow> w))"
proof -
  let ?K = "max 1 (nat \<lceil>totalFramesToCapture a\<rceil>)"
  let ?w1 = "controllerEvent
                (grantInitialTime 1 10000 OnInstalledCallback OnExpiredCallback
                   (virtualTimeTicksBase e)) e a
                \<lparr>controller = newVirtualTimeController None None,
                  expiriesDelivered = 0, frameCounter = 0, allFrameFilenames = [],
                  fileSystem = [], console = [], ffmpeg = None\<rparr>"
  from run_start [of e a] obtain n w where
    1: "\<And>fuel. eventLoop (n + fuel) e a ?w1 = eventLoop fuel e a w" "capturing e a 0 w"
    by blast
  have "0 < ?K" by simp
  from capture_loop [OF refl 1(2) this refl] obtain m w' where
    2: "\<And>fuel. eventLoop (m + fuel) e a w = w'" "captured e a ?K w'"
    by blast
  have 3: "eventLoop (n + m + fuel) e a ?w1 = w'" for fuel
    using 1(1) [of "m + fuel"] 2(1) [of fuel] by (simp add: add.assoc)
  have "run (n + m + fuel) e a =
      (case ffmpeg w' of Some job \<Rightarrow> ffmpegOn a (ffmpegResult e) w' | None \<Rightarrow> w')" for fuel
    unfolding run_def Let_def 3 by (rule refl)
  then show ?thesis
    using 2(2) by blast
qed

lemma written_append [simp]: "written (xs @ ys) = written xs @ written ys"
  by (induction xs rule: written.induct) simp_all

lemma unlinked_append [simp]: "unlinked (xs @ ys) = unlinked xs @ unlinked ys"
  by (induction xs rule: unlinked.induct) simp_all

lemma written_framesWritten [simp]: "written (framesWritten e a k) = frameNames a k"
  by (induction k) (simp_all add: framesWritten_Suc frameNames_Suc,
      simp_all add: framesWritten_def frameNames_def)

lemma unlinked_framesWritten [simp]: "unlinked (framesWritten e a k) = []"
  by (induction k) (simp_all add: framesWritten_Suc, simp_all add: framesWritten_def)

lemma written_unlinks [simp]: "written (map UnlinkSync xs) = []"
  by (induction xs) simp_all

lemma unlinked_unlinks [simp]: "unlinked (map UnlinkSync xs) = xs"
  by (induction xs) simp_all

text \<open>The run after the encoder's event, in terms of the state the loop ends in.\<close>

lemma run_result:
  "\<exists>fuel0. \<forall>fuel.
     allFrameFilenames (run (fuel0 + fuel) e a) =
       frameNames a (max 1 (nat \<lceil>totalFramesToCapture a\<rceil>))
   \<and> written (fileSystem (run (fuel0 + fuel) e a)) =
       frameNames a (max 1 (nat \<lceil>totalFramesToCapture a\<rceil>))
   \<and> length (screenshotTimes (browser (controller (run (fuel0 + fuel) e a)))) =
       max 1 (nat \<lceil>totalFramesToCapture a\<rceil>)
   \<and> unlinked (fileSystem (run (fuel0 + fuel) e a)) =
       (if \<not> keepFrames a \<and> (noVideo a \<or> ffmpegResult e = FfmpegEnd)
        then frameNames a (max 1 (nat \<lceil>totalFramesToCapture a\<rceil>)) else [])
   \<and> (ffmpeg (run (fuel0 + fuel) e a) = None) = noVideo a
   \<and> console (run (fuel0 + fuel) e a) =
       [''Finished capturing frames.'', ''Finished''] @
       (case ffmpegResult e of
          FfmpegError message \<Rightarrow>
            (if noVideo a then [] else [''An error occurred: '' @ message])
        | FfmpegEnd \<Rightarrow> [])"
proof -
  from run_final [of e a] obtain fuel0 w where
    w: "captured e a (max 1 (nat \<lceil>totalFramesToCapture a\<rceil>)) w"
    and r: "\<And>fuel. run (fuel0 + fuel) e a =
           (case ffmpeg w of Some job \<Rightarrow> ffmpegOn a (ffmpegResult e) w | None \<Rightarrow> w)"
    by blast
  show ?thesis
  proof (intro exI [of _ fuel0] allI)
    fix fuel
    show "allFrameFilenames (run (fuel0 + fuel) e a) =
       frameNames a (max 1 (nat \<lceil>totalFramesToCapture a\<rceil>))
   \<and> written (fileSystem (run (fuel0 + fuel) e a)) =
       frameNames a (max 1 (nat \<lceil>totalFramesToCapture a\<rceil>))
   \<and> length (screenshotTimes (browser (controller (run (fuel0 + fuel) e a)))) =
       max 1 (nat \<lceil>totalFramesToCapture a\<rceil>)
   \<and> unlinked (fileSystem (run (fuel0 + fuel) e a)) =
       (if \<not> keepFrames a \<and> (noVideo a \<or> ffmpegResult e = FfmpegEnd)
        then frameNames a (max 1 (nat \<lceil>totalFramesToCapture a\<rceil>)) else [])
   \<and> (ffmpeg (run (fuel0 + fuel) e a) = None) = noVideo a
   \<and> console (run (fuel0 + fuel) e a) =
       [''Finished capturing frames.'', ''Finished''] @
       (case ffmpegResult e of
          FfmpegError message \<Rightarrow>
            (if noVideo a then [] else [''An error occurred: '' @ message])
        | FfmpegEnd \<Rightarrow> [])"
      unfolding r using w
      by (cases "ffmpeg w"; cases "ffmpegResult e")
        (auto simp: captured_def unlinkAll_def)
  qed
qed

text \<open>The trace of the protocol session only grows.\<close>

lemma issue_grows: "prefix (browser s) (browser (issueAnimationFrameAndScheduleNextChunk s))"
  by (simp add: issueAnimationFrameAndScheduleNextChunk_def scheduleNextChunk_def send_def
      Let_def prefix_def split: option.split)

lemma expired_grows: "prefix (browser s) (browser (virtualTimeBudgetExpired s))"
proof -
  have "prefix (browser s)
      (browser (issueAnimationFrameAndScheduleNextChunk
         (s\<lparr>totalElapsedTime := totalElapsedTime s + lastGrantedChunk s,
            remainingBudget := remainingBudget s - lastGrantedChunk s\<rparr>)))"
    using issue_grows [of "s\<lparr>totalElapsedTime := totalElapsedTime s + lastGrantedChunk s,
            remainingBudget := remainingBudget s - lastGrantedChunk s\<rparr>"] by simp
  then show ?thesis
    by (simp add: virtualTimeBudgetExpired_def Let_def send_def split: option.split)
qed

lemma grantTime_grows: "prefix (browser s) (browser (grantTime B cb s))"
  using issue_grows [of "s\<lparr>remainingBudget := B, onExpired := Some cb\<rparr>"]
  by (simp add: grantTime_def)

lemma finish_grows:
  "prefix (browser (controller w)) (browser (controller (finish a w)))"
  by (simp add: finish_def Let_def startFfmpeg_def unlinkAll_def)

lemma timeExpired_grows:
  "prefix (browser (controller w)) (browser (controller (timeExpired e a w)))"
proof -
  let ?c1 = "snd (captureScreenshot (screenshotOptionsOf a) (screenshotData e (frameCounter w))
                (controller w))"
  have 1: "prefix (browser (controller w)) (browser ?c1)" by simp
  have 2: "prefix (browser ?c1)
      (browser (grantTime (timeBetweenFramesInMilliseconds a) TimeExpired ?c1))"
    by (rule grantTime_grows)
  have 3: "prefix (browser ?c1) (browser (controller (finish a (w\<lparr>controller := ?c1,
      fileSystem := fs, allFrameFilenames := ns, frameCounter := k\<rparr>))))" for fs ns k
    using finish_grows [of "w\<lparr>controller := ?c1,
      fileSystem := fs, allFrameFilenames := ns, frameCounter := k\<rparr>" a] by simp
  show ?thesis
    using prefix_order.trans [OF 1 2] prefix_order.trans [OF 1 3]
    by (simp add: timeExpired_def case_prod_beta Let_def)
qed

lemma invoke_grows:
  "prefix (browser (controller w)) (browser (controller (invoke e a x w)))"
proof (cases x)
  case (Pair cb t)
  show ?thesis
  proof (cases cb)
    case OnInstalledCallback
    then show ?thesis using Pair by (simp add: prefix_def)
  next
    case OnExpiredCallback
    then show ?thesis
      using Pair grantTime_grows [of "controller w"] by (simp add: Let_def)
  next
    case TimeExpired
    then show ?thesis using Pair timeExpired_grows by simp
  qed
qed

lemma fold_invoke_grows:
  "prefix (browser (controller w)) (browser (controller (fold (invoke e a) xs w)))"
proof (induction xs arbitrary: w)
  case Nil
  then show ?case by simp
next
  case (Cons x xs)
  show ?case
    using prefix_order.trans [OF invoke_grows Cons.IH] by simp
qed

lemma controllerEvent_grows:
  assumes "prefix (browser (controller w)) (browser (f (controller w)))"
  shows "prefix (browser (controller w)) (browser (controller (controllerEvent f e a w)))"
proof -
  have "prefix (browser (f (controller w)))
      (browser (controller (fold (invoke e a) xs (w\<lparr>controller := f (controller w)\<rparr>))))"
    for xs
    using fold_invoke_grows [of "w\<lparr>controller := f (controller w)\<rparr>" e a xs] by simp
  from prefix_order.trans [OF assms this] show ?thesis
    by (simp add: controllerEvent_def Let_def)
qed

lemma eventLoop_grows:
  "prefix (browser (controller w)) (browser (controller (eventLoop fuel e a w)))"
proof (induction fuel arbitrary: w)
  case 0
  then show ?case by (simp add: eventLoop.simps)
next
  case (Suc fuel)
  let ?w = "w\<lparr>expiriesDelivered := expiriesDelivered w + 1\<rparr>"
  have "prefix (browser (controller ?w))
      (browser (controller (controllerEvent virtualTimeBudgetExpired e a ?w)))"
    by (rule controllerEvent_grows) (rule expired_grows)
  then have "prefix (browser (controller w))
      (browser (controller (eventLoop fuel e a
         (controllerEvent virtualTimeBudgetExpired e a ?w))))"
    using Suc.IH prefix_order.trans by fastforce
  then show ?case by (simp add: eventLoop.simps)
qed

lemma ffmpegOn_controller [simp]: "controller (ffmpegOn a ev w) = controller w"
  by (cases ev) (simp_all add: unlinkAll_def)

lemma run_trace_start:
  "prefix
     [SetVirtualTimePolicyPause 10000,
      BeginFrame (virtualTimeTicksBase e) (Some False) None,
      SetVirtualTimePolicy 1 100000 True,
      OnInstalled OnInstalledCallback (virtualTimeTicksBase e),
      PageNavigate (url a), PageLoadEventFired]
     (browser (controller (run fuel e a)))"
proof -
  let ?c0 = "newVirtualTimeController None None :: callback controller"
  let ?g = "grantInitialTime 1 10000 OnInstalledCallback OnExpiredCallback
              (virtualTimeTicksBase e) ?c0"
  let ?w0 = "\<lparr>controller = ?c0, expiriesDelivered = 0, frameCounter = 0,
      allFrameFilenames = [], fileSystem = [], console = [], ffmpeg = None\<rparr>"
  let ?w1 = "controllerEvent
      (grantInitialTime 1 10000 OnInstalledCallback OnExpiredCallback (virtualTimeTicksBase e))
      e a ?w0"
  have c0: "browser ?c0 = []" "animationFrameInterval ?c0 = 16"
    "maxTaskStarvationCount ?c0 = 100000" "totalElapsedTime ?c0 = 0"
    by (simp_all add: newVirtualTimeController_def orDefault_def)
  have n: "nextAnimationFrame ?c0 = 16"
    by (simp add: nextAnimationFrame_def c0 js_rem_def js_trunc_def)
  have g: "browser ?g =
      [SetVirtualTimePolicyPause 10000,
       BeginFrame (virtualTimeTicksBase e) (Some False) None,
       SetVirtualTimePolicy 1 100000 True,
       OnInstalled OnInstalledCallback (virtualTimeTicksBase e)]"
    by (simp add: grantInitialTime_browser c0 n)
  have "?w1 = invoke e a (OnInstalledCallback, virtualTimeTicksBase e) (?w0\<lparr>controller := ?g\<rparr>)"
    by (subst controllerEvent_one [where x = "(OnInstalledCallback, virtualTimeTicksBase e)"])
      (simp_all add: g c0)
  then have 1: "browser (controller ?w1) =
      [SetVirtualTimePolicyPause 10000,
       BeginFrame (virtualTimeTicksBase e) (Some False) None,
       SetVirtualTimePolicy 1 100000 True,
       OnInstalled OnInstalledCallback (virtualTimeTicksBase e),
       PageNavigate (url a), PageLoadEventFired]"
    by (simp add: g)
  have "prefix (browser (controller ?w1)) (browser (controller (eventLoop fuel e a ?w1)))"
    by (rule eventLoop_grows)
  then show ?thesis
    unfolding 1 by (simp add: run_def Let_def split: option.split)
qed

lemma extension_format:
  "extension (screenshotOptionsOf a) = (if screenshotFormat a = Jpeg then ''jpg'' else ''png'')"
  by (simp add: extension_def screenshotOptionsOf_def)

section \<open>The claims\<close>


text \<open>
  C9. \<open>grantTime(B2, cb2)\<close> on a controller whose previous grant still has budget left
  raises nothing and queues nothing: the remaining budget it works with is \<open>B2\<close> alone
  and the stored expiry callback is \<open>cb2\<close>. The controller after the call is the one
  obtained from a controller whose previous budget and callback had already been erased,
  and the chunk it submits is cut from \<open>B2\<close>.
\<close>

theorem grantTime_overwrites:
  "grantTime B2 cb2 s = grantTime B2 cb2 (s\<lparr>remainingBudget := 0, onExpired := None\<rparr>)
   \<and> remainingBudget (grantTime B2 cb2 s) = B2
   \<and> onExpired (grantTime B2 cb2 s) = Some cb2
   \<and> lastGrantedChunk (grantTime B2 cb2 s) =
       min (animationFrameInterval s - js_rem (totalElapsedTime s) (animationFrameInterval s)) B2"
  by (simp add: grantTime_def issueAnimationFrameAndScheduleNextChunk_def
      scheduleNextChunk_def send_def Let_def split: option.split)





text \<open>
  C3. \<open>stopVirtualTimeGracefully\<close> during a grant: on a new controller (animation frame
  interval 16), \<open>grantTime(1000, cb)\<close> puts a chunk of 16 ms in flight; the stop sets the
  remaining budget to zero; the expiry event of the chunk in flight then subtracts the
  chunk from the zeroed budget, finds \<open>-16\<close> instead of \<open>0\<close>, does not invoke the
  callback and sends a further time-budget request, with the budget \<open>-16\<close>.
\<close>

theorem stop_in_flight_schedules_negative_chunk:
  "remainingBudget (stopVirtualTimeGracefully
      (grantTime 1000 () (newVirtualTimeController None None))) = 0
   \<and> lastGrantedChunk (stopVirtualTimeGracefully
      (grantTime 1000 () (newVirtualTimeController None None))) = 16
   \<and> browser (virtualTimeBudgetExpired (stopVirtualTimeGracefully
      (grantTime 1000 () (newVirtualTimeController None None)))) =
       [SetVirtualTimePolicy 16 100000 True, SetVirtualTimePolicy (- 16) 100000 False]
   \<and> remainingBudget (virtualTimeBudgetExpired (stopVirtualTimeGracefully
      (grantTime 1000 () (newVirtualTimeController None None)))) = - 16
   \<and> totalElapsedTime (virtualTimeBudgetExpired (stopVirtualTimeGracefully
      (grantTime 1000 () (newVirtualTimeController None None)))) = 16"
  by code_simp







text \<open>
  C6. Each call of \<open>grantInitialTime\<close> leads to exactly one invocation of its
  installation callback, and nothing else ever invokes one: in any session on a new
  controller the installation callbacks invoked are those of the \<open>grantInitialTime\<close> calls,
  once each and in order. The invocation happens within the call, as its last step, right
  after the time-budget request of the first chunk has been sent, with the time base the
  browser replied: the call sends the pause request, the full frame, possibly an
  animation frame, the time-budget request, and then invokes the callback. In \<open>run\<close>,
  whose installation callback is what navigates, the trace of the protocol session
  therefore begins with these requests, the invocation of the callback, and only then the
  navigation.
\<close>

theorem onInstalled_once_per_installation:
  "installedCalls (browser (session xs (newVirtualTimeController a m))) = installs xs
   \<and> browser (grantInitialTime B ivt oi oe base s) =
       browser s @
       [SetVirtualTimePolicyPause ivt, BeginFrame base (Some False) None] @
       (if 0 < totalElapsedTime s \<and> 0 < B
             \<and> js_rem (totalElapsedTime s) (animationFrameInterval s) = 0
        then [BeginFrame (base + totalElapsedTime s) (Some True) None] else []) @
       [SetVirtualTimePolicy (min (nextAnimationFrame s) B) (maxTaskStarvationCount s)
          (totalElapsedTime s = 0),
        OnInstalled oi base]
   \<and> onInstalled (grantInitialTime B ivt oi oe base s) = None
   \<and> prefix
       [SetVirtualTimePolicyPause 10000,
        BeginFrame (virtualTimeTicksBase e) (Some False) None,
        SetVirtualTimePolicy 1 100000 True,
        OnInstalled OnInstalledCallback (virtualTimeTicksBase e),
        PageNavigate (url av), PageLoadEventFired]
       (browser (controller (run fuel e av)))"
proof -
  have "onInstalled (newVirtualTimeController a m :: 'a controller) = None"
    "browser (newVirtualTimeController a m :: 'a controller) = []"
    by (simp_all add: newVirtualTimeController_def)
  then have "installedCalls (browser (session xs (newVirtualTimeController a m))) = installs xs"
    using session_installedCalls [of "newVirtualTimeController a m" xs] by simp
  then show ?thesis
    using run_trace_start [of e av fuel] by (simp add: grantInitialTime_browser)
qed

text \<open>
  C5 (as amended). With enough fuel for the event loop (and then for any larger amount),
  a run that requests \<open>frameCount\<close> frames performs exactly \<open>max(1, ceil(frameCount))\<close>
  capture calls, that is \<open>frameCount\<close> of them when \<open>frameCount\<close> is a positive integer and one
  when it is zero or negative. The frames written are numbered \<open>1, 2, ...\<close> up to that
  count, in order, without gaps or repeats. Frame \<open>i\<close> is named \<open>frame-\<close>, then the decimal
  digits of \<open>i\<close> padded with zeros on the left to at least seven digits (exactly seven
  when \<open>i < 10^7\<close>), then a dot and \<open>jpg\<close> for the jpeg format, \<open>png\<close> otherwise; the
  digits read back as \<open>i\<close>.
\<close>

theorem run_captures_numbered_frames:
  "\<exists>fuel0. \<forall>fuel.
     length (screenshotTimes (browser (controller (run (fuel0 + fuel) e a)))) =
       max 1 (nat \<lceil>frameCount a\<rceil>)
   \<and> allFrameFilenames (run (fuel0 + fuel) e a) =
       map (frameFilenameOf (screenshotOptionsOf a)) [1..<Suc (max 1 (nat \<lceil>frameCount a\<rceil>))]
   \<and> written (fileSystem (run (fuel0 + fuel) e a)) =
       map (frameFilenameOf (screenshotOptionsOf a)) [1..<Suc (max 1 (nat \<lceil>frameCount a\<rceil>))]
   \<and> (\<forall>i. frameFilenameOf (screenshotOptionsOf a) i =
            ''frame-'' @ padStart 7 (CHR ''0'') (toString i) @ ''.'' @
            (if screenshotFormat a = Jpeg then ''jpg'' else ''png'')
          \<and> fromDecimal (padStart 7 (CHR ''0'') (toString i)) = i
          \<and> (\<forall>c \<in> set (padStart 7 (CHR ''0'') (toString i)). isDigit c)
          \<and> 7 \<le> length (padStart 7 (CHR ''0'') (toString i))
          \<and> (i < 10 ^ 7 \<longrightarrow> length (padStart 7 (CHR ''0'') (toString i)) = 7))"
proof -
  have names: "\<forall>i. frameFilenameOf (screenshotOptionsOf a) i =
            ''frame-'' @ padStart 7 (CHR ''0'') (toString i) @ ''.'' @
            (if screenshotFormat a = Jpeg then ''jpg'' else ''png'')
          \<and> fromDecimal (padStart 7 (CHR ''0'') (toString i)) = i
          \<and> (\<forall>c \<in> set (padStart 7 (CHR ''0'') (toString i)). isDigit c)
          \<and> 7 \<le> length (padStart 7 (CHR ''0'') (toString i))
          \<and> (i < 10 ^ 7 \<longrightarrow> length (padStart 7 (CHR ''0'') (toString i)) = 7)"
  proof
    fix i
    from frameFilenameOf_shape [of "screenshotOptionsOf a" i]
    show "frameFilenameOf (screenshotOptionsOf a) i =
            ''frame-'' @ padStart 7 (CHR ''0'') (toString i) @ ''.'' @
            (if screenshotFormat a = Jpeg then ''jpg'' else ''png'')
          \<and> fromDecimal (padStart 7 (CHR ''0'') (toString i)) = i
          \<and> (\<forall>c \<in> set (padStart 7 (CHR ''0'') (toString i)). isDigit c)
          \<and> 7 \<le> length (padStart 7 (CHR ''0'') (toString i))
          \<and> (i < 10 ^ 7 \<longrightarrow> length (padStart 7 (CHR ''0'') (toString i)) = 7)"
      unfolding extension_format .
  qed
  from run_result [of e a] obtain fuel0 where
    r: "\<And>fuel. allFrameFilenames (run (fuel0 + fuel) e a) =
          frameNames a (max 1 (nat \<lceil>totalFramesToCapture a\<rceil>))
      \<and> written (fileSystem (run (fuel0 + fuel) e a)) =
          frameNames a (max 1 (nat \<lceil>totalFramesToCapture a\<rceil>))
      \<and> length (screenshotTimes (browser (controller (run (fuel0 + fuel) e a)))) =
          max 1 (nat \<lceil>totalFramesToCapture a\<rceil>)"
    by blast
  show ?thesis
  proof (intro exI [of _ fuel0] allI)
    fix fuel
    have 1: "length (screenshotTimes (browser (controller (run (fuel0 + fuel) e a)))) =
       max 1 (nat \<lceil>frameCount a\<rceil>)"
      using r [of fuel] by (simp add: totalFramesToCapture_def)
    have 2: "allFrameFilenames (run (fuel0 + fuel) e a) =
       map (frameFilenameOf (screenshotOptionsOf a)) [1..<Suc (max 1 (nat \<lceil>frameCount a\<rceil>))]"
      using r [of fuel] by (simp add: totalFramesToCapture_def frameNames_def)
    have 3: "written (fileSystem (run (fuel0 + fuel) e a)) =
       map (frameFilenameOf (screenshotOptionsOf a)) [1..<Suc (max 1 (nat \<lceil>frameCount a\<rceil>))]"
      using r [of fuel] by (simp add: totalFramesToCapture_def frameNames_def)
    show "length (screenshotTimes (browser (controller (run (fuel0 + fuel) e a)))) =
       max 1 (nat \<lceil>frameCount a\<rceil>)
   \<and> allFrameFilenames (run (fuel0 + fuel) e a) =
       map (frameFilenameOf (screenshotOptionsOf a)) [1..<Suc (max 1 (nat \<lceil>frameCount a\<rceil>))]
   \<and> written (fileSystem (run (fuel0 + fuel) e a)) =
       map (frameFilenameOf (screenshotOptionsOf a)) [1..<Suc (max 1 (nat \<lceil>frameCount a\<rceil>))]
   \<and> (\<forall>i. frameFilenameOf (screenshotOptionsOf a) i =
            ''frame-'' @ padStart 7 (CHR ''0'') (toString i) @ ''.'' @
            (if screenshotFormat a = Jpeg then ''jpg'' else ''png'')
          \<and> fromDecimal (padStart 7 (CHR ''0'') (toString i)) = i
          \<and> (\<forall>c \<in> set (padStart 7 (CHR ''0'') (toString i)). isDigit c)
          \<and> 7 \<le> length (padStart 7 (CHR ''0'') (toString i))
          \<and> (i < 10 ^ 7 \<longrightarrow> length (padStart 7 (CHR ''0'') (toString i)) = 7))"
      by (rule conjI [OF 1 conjI [OF 2 conjI [OF 3 names]]])
  qed
qed

theorem run_captures_numbered_frames_witness:
  "\<exists>fuel0. \<forall>fuel.
     length (screenshotTimes (browser (controller (run (fuel0 + fuel)
       \<lparr>virtualTimeTicksBase = 5000, screenshotData = blankScreen, ffmpegResult = FfmpegEnd\<rparr>
       \<lparr>width = 300, height = 300, frameInterval = 20, url = ''http://localhost/'',
        frameCount = 2, outputFilename = ''output.mp4'', screenshotFormat = Jpeg,
        screenshotJpegQuality = 85, noVideo = False, keepFrames = False\<rparr>)))) = 2
   \<and> allFrameFilenames (run (fuel0 + fuel)
       \<lparr>virtualTimeTicksBase = 5000, screenshotData = blankScreen, ffmpegResult = FfmpegEnd\<rparr>
       \<lparr>width = 300, height = 300, frameInterval = 20, url = ''http://localhost/'',
        frameCount = 2, outputFilename = ''output.mp4'', screenshotFormat = Jpeg,
        screenshotJpegQuality = 85, noVideo = False, keepFrames = False\<rparr>) = [''frame-0000001.jpg'', ''frame-0000002.jpg'']"
proof -
  let ?e = "\<lparr>virtualTimeTicksBase = 5000, screenshotData = blankScreen, ffmpegResult = FfmpegEnd\<rparr>"
  let ?a = "\<lparr>width = 300, height = 300, frameInterval = 20, url = ''http://localhost/'',
        frameCount = 2, outputFilename = ''output.mp4'', screenshotFormat = Jpeg,
        screenshotJpegQuality = 85, noVideo = False, keepFrames = False\<rparr>"
  have k: "max 1 (nat \<lceil>frameCount ?a\<rceil>) = 2"
    by simp
  have names: "map (frameFilenameOf (screenshotOptionsOf ?a)) [1..<Suc 2] =
      [''frame-0000001.jpg'', ''frame-0000002.jpg'']"
    by code_simp
  from run_captures_numbered_frames [of ?e ?a] obtain fuel0 where
    "\<And>fuel. length (screenshotTimes (browser (controller (run (fuel0 + fuel) ?e ?a)))) =
         max 1 (nat \<lceil>frameCount ?a\<rceil>)
       \<and> allFrameFilenames (run (fuel0 + fuel) ?e ?a) =
         map (frameFilenameOf (screenshotOptionsOf ?a))
           [1..<Suc (max 1 (nat \<lceil>frameCount ?a\<rceil>))]"
    by blast
  then have "\<And>fuel. length (screenshotTimes (browser (controller (run (fuel0 + fuel) ?e ?a)))) = 2
       \<and> allFrameFilenames (run (fuel0 + fuel) ?e ?a) =
         [''frame-0000001.jpg'', ''frame-0000002.jpg'']"
    unfolding k names .
  then show ?thesis by blast
qed

text \<open>The claim as stated fails for a request of zero frames, which captures one, and
  for the ten-millionth frame, whose number has eight digits.\<close>

theorem zero_frames_requested_one_captured:
  "frameCount \<lparr>width = 300, height = 300, frameInterval = 20, url = ''http://localhost/'',
        frameCount = 0, outputFilename = ''output.mp4'', screenshotFormat = Jpeg,
        screenshotJpegQuality = 85, noVideo = False, keepFrames = False\<rparr> = 0
   \<and> length (screenshotTimes (browser (controller (run 10
       \<lparr>virtualTimeTicksBase = 5000, screenshotData = blankScreen, ffmpegResult = FfmpegEnd\<rparr>
       \<lparr>width = 300, height = 300, frameInterval = 20, url = ''http://localhost/'',
        frameCount = 0, outputFilename = ''output.mp4'', screenshotFormat = Jpeg,
        screenshotJpegQuality = 85, noVideo = False, keepFrames = False\<rparr>)))) = 1
   \<and> allFrameFilenames (run 10
       \<lparr>virtualTimeTicksBase = 5000, screenshotData = blankScreen, ffmpegResult = FfmpegEnd\<rparr>
       \<lparr>width = 300, height = 300, frameInterval = 20, url = ''http://localhost/'',
        frameCount = 0, outputFilename = ''output.mp4'', screenshotFormat = Jpeg,
        screenshotJpegQuality = 85, noVideo = False, keepFrames = False\<rparr>) = [''frame-0000001.jpg'']
   \<and> frameFilenameOf \<lparr>format = Jpeg, quality = Some 85\<rparr> 10000000 = ''frame-10000000.jpg''"
proof -
  have 1: "frameCount \<lparr>width = 300, height = 300, frameInterval = 20, url = ''http://localhost/'',
        frameCount = 0, outputFilename = ''output.mp4'', screenshotFormat = Jpeg,
        screenshotJpegQuality = 85, noVideo = False, keepFrames = False\<rparr> = 0"
    by simp
  have 2: "length (screenshotTimes (browser (controller (run 10
       \<lparr>virtualTimeTicksBase = 5000, screenshotData = blankScreen, ffmpegResult = FfmpegEnd\<rparr>
       \<lparr>width = 300, height = 300, frameInterval = 20, url = ''http://localhost/'',
        frameCount = 0, outputFilename = ''output.mp4'', screenshotFormat = Jpeg,
        screenshotJpegQuality = 85, noVideo = False, keepFrames = False\<rparr>)))) = 1"
    by code_simp
  have 3: "allFrameFilenames (run 10
       \<lparr>virtualTimeTicksBase = 5000, screenshotData = blankScreen, ffmpegResult = FfmpegEnd\<rparr>
       \<lparr>width = 300, height = 300, frameInterval = 20, url = ''http://localhost/'',
        frameCount = 0, outputFilename = ''output.mp4'', screenshotFormat = Jpeg,
        screenshotJpegQuality = 85, noVideo = False, keepFrames = False\<rparr>) = [''frame-0000001.jpg'']"
    by code_simp
  have 4: "frameFilenameOf \<lparr>format = Jpeg, quality = Some 85\<rparr> 10000000 =
      ''frame-10000000.jpg''"
    by (simp add: frameFilenameOf_def padStart_def extension_def toString.simps)
  show ?thesis
    by (rule conjI [OF 1 conjI [OF 2 conjI [OF 3 4]]])
qed

text \<open>
  C8. In a finished run (enough fuel for the event loop), the frame files are deleted
  exactly when keep-frames is off and either encoding is skipped or the encoder ends
  successfully; then all of them are. So when the encoder was started and fails, no frame
  file is deleted, whatever the keep-frames flag, and the failure is reported on the
  console as the last line.
\<close>

theorem encoder_failure_keeps_frames:
  "\<exists>fuel0. \<forall>fuel.
     unlinked (fileSystem (run (fuel0 + fuel) e a)) =
       (if \<not> keepFrames a \<and> (noVideo a \<or> ffmpegResult e = FfmpegEnd)
        then allFrameFilenames (run (fuel0 + fuel) e a) else [])
   \<and> written (fileSystem (run (fuel0 + fuel) e a)) = allFrameFilenames (run (fuel0 + fuel) e a)
   \<and> allFrameFilenames (run (fuel0 + fuel) e a) \<noteq> []
   \<and> (ffmpeg (run (fuel0 + fuel) e a) = None) = noVideo a
   \<and> (\<forall>message. \<not> noVideo a \<and> ffmpegResult e = FfmpegError message \<longrightarrow>
          unlinked (fileSystem (run (fuel0 + fuel) e a)) = []
        \<and> console (run (fuel0 + fuel) e a) =
            [''Finished capturing frames.'', ''Finished'', ''An error occurred: '' @ message])"
proof -
  let ?K = "max 1 (nat \<lceil>totalFramesToCapture a\<rceil>)"
  obtain j where j: "?K = Suc j" by (cases ?K) auto
  have ne: "frameNames a ?K \<noteq> []"
    unfolding j by (simp add: frameNames_Suc)
  from run_result [of e a] obtain fuel0 where
    r: "\<And>fuel. allFrameFilenames (run (fuel0 + fuel) e a) = frameNames a ?K
      \<and> written (fileSystem (run (fuel0 + fuel) e a)) = frameNames a ?K
      \<and> unlinked (fileSystem (run (fuel0 + fuel) e a)) =
          (if \<not> keepFrames a \<and> (noVideo a \<or> ffmpegResult e = FfmpegEnd)
           then frameNames a ?K else [])
      \<and> (ffmpeg (run (fuel0 + fuel) e a) = None) = noVideo a
      \<and> console (run (fuel0 + fuel) e a) =
          [''Finished capturing frames.'', ''Finished''] @
          (case ffmpegResult e of
             FfmpegError message \<Rightarrow>
               (if noVideo a then [] else [''An error occurred: '' @ message])
           | FfmpegEnd \<Rightarrow> [])"
    by blast
  show ?thesis
  proof (intro exI [of _ fuel0] allI)
    fix fuel
    show "unlinked (fileSystem (run (fuel0 + fuel) e a)) =
       (if \<not> keepFrames a \<and> (noVideo a \<or> ffmpegResult e = FfmpegEnd)
        then allFrameFilenames (run (fuel0 + fuel) e a) else [])
   \<and> written (fileSystem (run (fuel0 + fuel) e a)) = allFrameFilenames (run (fuel0 + fuel) e a)
   \<and> allFrameFilenames (run (fuel0 + fuel) e a) \<noteq> []
   \<and> (ffmpeg (run (fuel0 + fuel) e a) = None) = noVideo a
   \<and> (\<forall>message. \<not> noVideo a \<and> ffmpegResult e = FfmpegError message \<longrightarrow>
          unlinked (fileSystem (run (fuel0 + fuel) e a)) = []
        \<and> console (run (fuel0 + fuel) e a) =
            [''Finished capturing frames.'', ''Finished'', ''An error occurred: '' @ message])"
    proof (intro conjI allI impI)
      show "unlinked (fileSystem (run (fuel0 + fuel) e a)) =
         (if \<not> keepFrames a \<and> (noVideo a \<or> ffmpegResult e = FfmpegEnd)
          then allFrameFilenames (run (fuel0 + fuel) e a) else [])"
        using r [of fuel] by simp
      show "written (fileSystem (run (fuel0 + fuel) e a)) =
         allFrameFilenames (run (fuel0 + fuel) e a)"
        using r [of fuel] by simp
      show "allFrameFilenames (run (fuel0 + fuel) e a) \<noteq> []"
        using r [of fuel] ne by simp
      show "(ffmpeg (run (fuel0 + fuel) e a) = None) = noVideo a"
        using r [of fuel] by simp
    next
      fix message
      assume m: "\<not> noVideo a \<and> ffmpegResult e = FfmpegError message"
      show "unlinked (fileSystem (run (fuel0 + fuel) e a)) = []"
        using r [of fuel] m by simp
      show "console (run (fuel0 + fuel) e a) =
            [''Finished capturing frames.'', ''Finished'', ''An error occurred: '' @ message]"
        using r [of fuel] m by simp
    qed
  qed
qed

theorem encoder_failure_keeps_frames_witness:
  "\<exists>fuel0. \<forall>fuel.
     unlinked (fileSystem (run (fuel0 + fuel)
       \<lparr>virtualTimeTicksBase = 5000, screenshotData = blankScreen, ffmpegResult = FfmpegError ''boom''\<rparr>
       \<lparr>width = 300, height = 300, frameInterval = 20, url = ''http://localhost/'',
        frameCount = 2, outputFilename = ''output.mp4'', screenshotFormat = Jpeg,
        screenshotJpegQuality = 85, noVideo = False, keepFrames = False\<rparr>)) = []
   \<and> console (run (fuel0 + fuel)
       \<lparr>virtualTimeTicksBase = 5000, screenshotData = blankScreen, ffmpegResult = FfmpegError ''boom''\<rparr>
       \<lparr>width = 300, height = 300, frameInterval = 20, url = ''http://localhost/'',
        frameCount = 2, outputFilename = ''output.mp4'', screenshotFormat = Jpeg,
        screenshotJpegQuality = 85, noVideo = False, keepFrames = False\<rparr>) =
       [''Finished capturing frames.'', ''Finished'', ''An error occurred: boom'']"
proof -
  let ?e = "\<lparr>virtualTimeTicksBase = 5000, screenshotData = blankScreen, ffmpegResult = FfmpegError ''boom''\<rparr>"
  let ?a = "\<lparr>width = 300, height = 300, frameInterval = 20, url = ''http://localhost/'',
        frameCount = 2, outputFilename = ''output.mp4'', screenshotFormat = Jpeg,
        screenshotJpegQuality = 85, noVideo = False, keepFrames = False\<rparr>"
  have h: "\<not> noVideo ?a \<and> ffmpegResult ?e = FfmpegError ''boom''"
    by simp
  from encoder_failure_keeps_frames [of ?e ?a] obtain fuel0 where
    "\<And>fuel. \<forall>message. \<not> noVideo ?a \<and> ffmpegResult ?e = FfmpegError message \<longrightarrow>
          unlinked (fileSystem (run (fuel0 + fuel) ?e ?a)) = []
        \<and> console (run (fuel0 + fuel) ?e ?a) =
            [''Finished capturing frames.'', ''Finished'', ''An error occurred: '' @ message]"
    by blast
  then have "\<And>fuel. unlinked (fileSystem (run (fuel0 + fuel) ?e ?a)) = []
        \<and> console (run (fuel0 + fuel) ?e ?a) =
            [''Finished capturing frames.'', ''Finished'', ''An error occurred: '' @ ''boom'']"
    using h by blast
  then show ?thesis by auto
qed

end
